theory Spec2Isabelle
  imports Complex_Main "HOL-Library.Sublist"
begin

section \<open>JavaScript values\<close>

text \<open>
  The program is the script block of \<^verbatim>\<open>src/src/App.vue\<close>. Its data are untyped
  JavaScript values: the parsed schema, the parsed OpenAPI document and the generated
  records. A number is an IEEE double, modelled as a real number or one of the three
  special values; only comparison, minimum, maximum and truncation are applied to numbers
  here, and these are exact on doubles. An object is the list of its own enumerable
  properties in the order in which \<^verbatim>\<open>Object.keys\<close> and \<^verbatim>\<open>Object.entries\<close> report them.
  A string is a list of characters, one per code unit.
\<close>

datatype jsnum = NaN | NegInf | PosInf | Fin real

datatype jsval =
    JUndefined
  | JNull
  | JBool bool
  | JNum jsnum
  | JStr string
  | JArr "jsval list"
  | JObj "(string \<times> jsval) list"

text \<open>
  The four messages the program passes to \<^verbatim>\<open>new Error(...)\<close> are Japanese sentences;
  each is named here by what it says:
  \<^item> \<open>SchemaMustBeObject\<close>: line 56, "give the schema as an object";
  \<^item> \<open>PathsNotFound\<close>: line 135, \<^verbatim>\<open>OpenAPI: paths\<close> "is not found";
  \<^item> \<open>JsonSchemaNotFound\<close>: line 140, "the \<^verbatim>\<open>schema\<close> of \<^verbatim>\<open>application/json\<close> is not found";
  \<^item> \<open>UnsupportedSchema\<close>: line 152, "unsupported OpenAPI schema".
\<close>

datatype app_message =
    SchemaMustBeObject
  | PathsNotFound
  | JsonSchemaNotFound
  | UnsupportedSchema

text \<open>
  What can be thrown: the parsers' own exceptions, the engine's \<^verbatim>\<open>TypeError\<close> (reading
  a property of \<^verbatim>\<open>undefined\<close> or \<^verbatim>\<open>null\<close>, calling what is not a function,
  \<^verbatim>\<open>Object.keys(undefined)\<close>), and the program's own \<^verbatim>\<open>Error\<close>.
\<close>

datatype js_error =
    SyntaxError
  | YAMLException
  | TypeError
  | Error app_message

fun num_truthy :: "jsnum \<Rightarrow> bool" where
  "num_truthy NaN = False"
| "num_truthy NegInf = True"
| "num_truthy PosInf = True"
| "num_truthy (Fin r) = (r \<noteq> 0)"

fun truthy :: "jsval \<Rightarrow> bool" where
  "truthy JUndefined = False"
| "truthy JNull = False"
| "truthy (JBool b) = b"
| "truthy (JNum n) = num_truthy n"
| "truthy (JStr s) = (s \<noteq> [])"
| "truthy (JArr xs) = True"
| "truthy (JObj ps) = True"

fun typeof :: "jsval \<Rightarrow> string" where
  "typeof JUndefined = ''undefined''"
| "typeof JNull = ''object''"
| "typeof (JBool b) = ''boolean''"
| "typeof (JNum n) = ''number''"
| "typeof (JStr s) = ''string''"
| "typeof (JArr xs) = ''object''"
| "typeof (JObj ps) = ''object''"

fun nullish :: "jsval \<Rightarrow> bool" where
  "nullish JUndefined = True"
| "nullish JNull = True"
| "nullish v = False"

subsection \<open>Numbers as text, text as array indices\<close>

fun String_nat :: "nat \<Rightarrow> string" where
  "String_nat n =
     (if n < 10 then [''0123456789'' ! n]
      else String_nat (n div 10) @ [''0123456789'' ! (n mod 10)])"

declare String_nat.simps [simp del]

definition String_int :: "int \<Rightarrow> string" where
  "String_int i = (if i < 0 then ''-'' @ String_nat (nat (- i)) else String_nat (nat i))"

definition is_digit :: "char \<Rightarrow> bool" where
  "is_digit c = (c \<in> set ''0123456789'')"

definition digit_val :: "char \<Rightarrow> nat" where
  "digit_val c = of_char c - 48"

fun digits_val :: "nat \<Rightarrow> string \<Rightarrow> nat" where
  "digits_val acc [] = acc"
| "digits_val acc (c # cs) = digits_val (10 * acc + digit_val c) cs"

text \<open>
  A property name is an array index when it is the canonical decimal text of an integer
  from 0 to \<open>2\<^sup>3\<^sup>2 - 2\<close>. Such names come first, in ascending numeric order, among
  the own properties of an object; they also select the elements of an array and the
  characters of a string.
\<close>

definition array_index :: "string \<Rightarrow> nat option" where
  "array_index k =
     (if k \<noteq> [] \<and> list_all is_digit k \<and> (k = ''0'' \<or> hd k \<noteq> CHR ''0'')
         \<and> digits_val 0 k < 4294967295
      then Some (digits_val 0 k) else None)"

subsection \<open>Strings\<close>

definition startsWith :: "string \<Rightarrow> string \<Rightarrow> bool" where
  "startsWith s p = (take (length p) s = p)"

definition endsWith :: "string \<Rightarrow> string \<Rightarrow> bool" where
  "endsWith s p = (length p \<le> length s \<and> drop (length s - length p) s = p)"

definition slice_from :: "nat \<Rightarrow> string \<Rightarrow> string" where
  "slice_from n s = drop n s"

definition padStart :: "nat \<Rightarrow> char \<Rightarrow> string \<Rightarrow> string" where
  "padStart n c s = replicate (n - length s) c @ s"

text \<open>
  \<open>toLowerCase\<close> lower-cases the letters A to Z and leaves every other character as it
  is. The program applies \<^verbatim>\<open>toLowerCase\<close> to the four method names and to the e-mail
  addresses of faker, and the test of line 162 ignores the case of the letters of
  \<^verbatim>\<open>.yaml\<close> and \<^verbatim>\<open>.yml\<close>: texts of ASCII letters. Letters outside ASCII, which the
  engine would lower-case too, are not modelled.
\<close>

definition lower_char :: "char \<Rightarrow> char" where
  "lower_char c =
     (case map_of (zip ''ABCDEFGHIJKLMNOPQRSTUVWXYZ'' ''abcdefghijklmnopqrstuvwxyz'') c of
        Some d \<Rightarrow> d
      | None \<Rightarrow> c)"

definition toLowerCase :: "string \<Rightarrow> string" where
  "toLowerCase s = map lower_char s"

subsection \<open>Property access\<close>

text \<open>
  \<open>get_prop v k\<close> is \<^verbatim>\<open>v[k]\<close>: a \<^verbatim>\<open>TypeError\<close> on \<^verbatim>\<open>undefined\<close> and \<^verbatim>\<open>null\<close>, the
  own property otherwise, \<^verbatim>\<open>undefined\<close> when there is none. The names the program reads
  (\<^verbatim>\<open>paths\<close>, \<^verbatim>\<open>responses\<close>, \<^verbatim>\<open>200\<close>, \<^verbatim>\<open>content\<close>, \<^verbatim>\<open>application/json\<close>, \<^verbatim>\<open>schema\<close>,
  \<^verbatim>\<open>type\<close>, \<^verbatim>\<open>items\<close>, \<^verbatim>\<open>properties\<close>, \<^verbatim>\<open>format\<close>, \<^verbatim>\<open>undefined\<close>, and names that
  \<^verbatim>\<open>Object.keys\<close> returned for the same value) are not defined on any built-in prototype,
  so the prototype chain is left out.
\<close>

fun get_prop :: "jsval \<Rightarrow> string \<Rightarrow> js_error + jsval" where
  "get_prop JUndefined k = Inl TypeError"
| "get_prop JNull k = Inl TypeError"
| "get_prop (JBool b) k = Inr JUndefined"
| "get_prop (JNum n) k = Inr JUndefined"
| "get_prop (JStr s) k =
     (case array_index k of
        None \<Rightarrow> Inr JUndefined
      | Some i \<Rightarrow> if i < length s then Inr (JStr [s ! i]) else Inr JUndefined)"
| "get_prop (JArr xs) k =
     (case array_index k of
        None \<Rightarrow> Inr JUndefined
      | Some i \<Rightarrow> if i < length xs then Inr (xs ! i) else Inr JUndefined)"
| "get_prop (JObj ps) k =
     (case map_of ps k of None \<Rightarrow> Inr JUndefined | Some v \<Rightarrow> Inr v)"

text \<open>\<open>opt_get v k\<close> is the optional chain \<^verbatim>\<open>v?.[k]\<close>, which cannot throw.\<close>

definition opt_get :: "jsval \<Rightarrow> string \<Rightarrow> jsval" where
  "opt_get v k =
     (if nullish v then JUndefined
      else case get_prop v k of Inl e \<Rightarrow> JUndefined | Inr x \<Rightarrow> x)"

fun Object_entries :: "jsval \<Rightarrow> js_error + (string \<times> jsval) list" where
  "Object_entries JUndefined = Inl TypeError"
| "Object_entries JNull = Inl TypeError"
| "Object_entries (JBool b) = Inr []"
| "Object_entries (JNum n) = Inr []"
| "Object_entries (JStr s) =
     Inr (zip (map String_nat [0..<length s]) (map (\<lambda>c. JStr [c]) s))"
| "Object_entries (JArr xs) = Inr (zip (map String_nat [0..<length xs]) xs)"
| "Object_entries (JObj ps) = Inr ps"

definition Object_keys :: "jsval \<Rightarrow> js_error + string list" where
  "Object_keys v = (case Object_entries v of Inl e \<Rightarrow> Inl e | Inr es \<Rightarrow> Inr (map fst es))"

text \<open>
  \<^verbatim>\<open>Object.keys(x)[0]\<close> is the first name or \<^verbatim>\<open>undefined\<close>; used as a property name,
  \<^verbatim>\<open>undefined\<close> is the name \<^verbatim>\<open>"undefined"\<close>.
\<close>

definition first_key :: "string list \<Rightarrow> string option" where
  "first_key ks = (case ks of [] \<Rightarrow> None | k # _ \<Rightarrow> Some k)"

definition key_text :: "string option \<Rightarrow> string" where
  "key_text k = (case k of None \<Rightarrow> ''undefined'' | Some s \<Rightarrow> s)"

subsection \<open>Assignment to a property of a plain object\<close>

text \<open>
  \<open>insert_key ps k v\<close> adds the new property \<open>k\<close> where the engine lists it: an array
  index before every larger index and before every other name, any other name last.
\<close>

fun insert_key :: "(string \<times> jsval) list \<Rightarrow> string \<Rightarrow> jsval \<Rightarrow> (string \<times> jsval) list" where
  "insert_key [] k v = [(k, v)]"
| "insert_key ((k', v') # ps) k v =
     (case array_index k of
        None \<Rightarrow> (k', v') # insert_key ps k v
      | Some i \<Rightarrow>
          (case array_index k' of
             None \<Rightarrow> (k, v) # (k', v') # ps
           | Some j \<Rightarrow> if j < i then (k', v') # insert_key ps k v else (k, v) # (k', v') # ps))"

fun replace_key :: "(string \<times> jsval) list \<Rightarrow> string \<Rightarrow> jsval \<Rightarrow> (string \<times> jsval) list" where
  "replace_key [] k v = []"
| "replace_key ((k', v') # ps) k v =
     (if k' = k then (k, v) # ps else (k', v') # replace_key ps k v)"

text \<open>
  \<open>obj_set ps k v\<close> is \<^verbatim>\<open>rec[k] = v\<close> for an object that started as the literal \<^verbatim>\<open>{}\<close>
  and has only been assigned to (lines 81-82 and 143-145), with \<open>v\<close> a string, a number
  or \<^verbatim>\<open>null\<close>. The name \<^verbatim>\<open>__proto__\<close> is the accessor of \<^verbatim>\<open>Object.prototype\<close>: assigning
  to it runs the setter, which creates no own property.
\<close>

definition obj_set :: "(string \<times> jsval) list \<Rightarrow> string \<Rightarrow> jsval \<Rightarrow> (string \<times> jsval) list" where
  "obj_set ps k v =
     (if k = ''__proto__'' then ps
      else if k \<in> set (map fst ps) then replace_key ps k v
      else insert_key ps k v)"

section \<open>The schema parser (lines 54-58)\<close>

text \<open>
  \<^verbatim>\<open>JSON.parse\<close> is the engine's; it is a parameter, returning the parsed value or its
  \<^verbatim>\<open>SyntaxError\<close>.
\<close>

definition parseSchema :: "(string \<Rightarrow> js_error + jsval) \<Rightarrow> string \<Rightarrow> js_error + jsval" where
  "parseSchema JSON_parse txt =
     (case JSON_parse txt of
        Inl e \<Rightarrow> Inl e
      | Inr obj \<Rightarrow>
          if \<not> truthy obj \<or> typeof obj \<noteq> ''object'' then Inl (Error SchemaMustBeObject)
          else Inr obj)"

section \<open>The value synthesizer (lines 61-77)\<close>

text \<open>
  The faker library is a parameter: each of its five operations used here draws from a
  random state \<open>'s\<close> and returns the next state. A \<^verbatim>\<open>Date\<close> is what the program reads
  of it: the local year, month (from 0) and day of the month, and its ISO text.
\<close>

record js_date =
  getFullYear :: int
  getMonth :: int
  getDate :: int
  toISOString :: string

record 's faker =
  string_uuid :: "'s \<Rightarrow> string \<times> 's"
  person_fullName :: "'s \<Rightarrow> string \<times> 's"
  internet_email :: "'s \<Rightarrow> string \<times> 's"
  number_int :: "int \<Rightarrow> int \<Rightarrow> 's \<Rightarrow> int \<times> 's"
  date_between :: "string \<Rightarrow> string \<Rightarrow> 's \<Rightarrow> js_date \<times> 's"

text \<open>
  \<open>genValue\<close> is called with whatever value the schema holds for a field. On anything but
  a string, \<^verbatim>\<open>typeSpec.startsWith\<close> is not a function (or \<open>typeSpec\<close> is \<^verbatim>\<open>null\<close>) and the
  call throws a \<^verbatim>\<open>TypeError\<close>.
\<close>

definition genValue :: "'s faker \<Rightarrow> jsval \<Rightarrow> 's \<Rightarrow> (js_error + jsval) \<times> 's" where
  "genValue fk typeSpec s =
     (case typeSpec of
        JStr ts \<Rightarrow>
          if startsWith ts ''date:'' then
            (let fmt = slice_from 5 ts;
                 (dt, s') = date_between fk ''2018-01-01'' ''2025-12-31'' s;
                 yyyy = String_int (getFullYear dt);
                 mm = padStart 2 (CHR ''0'') (String_int (getMonth dt + 1));
                 dd = padStart 2 (CHR ''0'') (String_int (getDate dt))
             in if fmt = ''YYYY-MM-DD'' then (Inr (JStr (yyyy @ ''-'' @ mm @ ''-'' @ dd)), s')
                else if fmt = ''YYYY/MM/DD'' then (Inr (JStr (yyyy @ ''/'' @ mm @ ''/'' @ dd)), s')
                else (Inr (JStr (toISOString dt)), s'))
          else if ts = ''uuid'' then
            (let (u, s') = string_uuid fk s in (Inr (JStr u), s'))
          else if ts = ''string'' then
            (let (n, s') = person_fullName fk s in (Inr (JStr n), s'))
          else if ts = ''email'' then
            (let (e, s') = internet_email fk s in (Inr (JStr (toLowerCase e)), s'))
          else if ts = ''number'' then
            (let (i, s') = number_int fk 0 9999 s in (Inr (JNum (Fin (of_int i))), s'))
          else (Inr JNull, s)
      | _ \<Rightarrow> (Inl TypeError, s))"

section \<open>The record generator (lines 80-97)\<close>

fun buildRecord_loop ::
  "'s faker \<Rightarrow> (string \<times> jsval) list \<Rightarrow> (string \<times> jsval) list \<Rightarrow> 's
     \<Rightarrow> (js_error + (string \<times> jsval) list) \<times> 's" where
  "buildRecord_loop fk [] rec s = (Inr rec, s)"
| "buildRecord_loop fk ((k, t) # es) rec s =
     (case genValue fk t s of
        (Inl e, s') \<Rightarrow> (Inl e, s')
      | (Inr v, s') \<Rightarrow> buildRecord_loop fk es (obj_set rec k v) s')"

definition buildRecord :: "'s faker \<Rightarrow> jsval \<Rightarrow> 's \<Rightarrow> (js_error + jsval) \<times> 's" where
  "buildRecord fk schema s =
     (case Object_entries schema of
        Inl e \<Rightarrow> (Inl e, s)
      | Inr es \<Rightarrow>
          (case buildRecord_loop fk es [] s of
             (Inl e, s') \<Rightarrow> (Inl e, s')
           | (Inr rec, s') \<Rightarrow> (Inr (JObj rec), s')))"

text \<open>
  The count field is bound with \<^verbatim>\<open>v-model.number\<close> (line 204): it holds a number, or the
  text of the input when that text does not start with a number. \<^verbatim>\<open>Number(...)\<close> leaves a
  number as it is; its conversion of text is the engine's and is a parameter.
\<close>

datatype count_value = CountNumber jsnum | CountText string

fun Number_js :: "(string \<Rightarrow> jsnum) \<Rightarrow> count_value \<Rightarrow> jsnum" where
  "Number_js StringToNumber (CountNumber n) = n"
| "Number_js StringToNumber (CountText t) = StringToNumber t"

fun Math_min :: "jsnum \<Rightarrow> jsnum \<Rightarrow> jsnum" where
  "Math_min NaN y = NaN"
| "Math_min x NaN = NaN"
| "Math_min NegInf y = NegInf"
| "Math_min x NegInf = NegInf"
| "Math_min PosInf y = y"
| "Math_min x PosInf = x"
| "Math_min (Fin a) (Fin b) = Fin (min a b)"

fun Math_max :: "jsnum \<Rightarrow> jsnum \<Rightarrow> jsnum" where
  "Math_max NaN y = NaN"
| "Math_max x NaN = NaN"
| "Math_max PosInf y = PosInf"
| "Math_max x PosInf = PosInf"
| "Math_max NegInf y = y"
| "Math_max x NegInf = x"
| "Math_max (Fin a) (Fin b) = Fin (max a b)"

text \<open>\<open>or_else x d\<close> is \<^verbatim>\<open>x || d\<close> on numbers.\<close>

definition or_else :: "jsnum \<Rightarrow> jsnum \<Rightarrow> jsnum" where
  "or_else x d = (if num_truthy x then x else d)"

text \<open>
  \<^verbatim>\<open>Array.from({ length: n }, f)\<close> reads the length with the engine's \<^verbatim>\<open>ToLength\<close>
  (truncate, then clamp to \<open>0 .. 2\<^sup>5\<^sup>3 - 1\<close>) and calls \<open>f\<close> once per index, in order; an
  exception of \<open>f\<close> ends it.
\<close>

fun ToLength :: "jsnum \<Rightarrow> nat" where
  "ToLength NaN = 0"
| "ToLength NegInf = 0"
| "ToLength PosInf = 9007199254740991"
| "ToLength (Fin r) = (if r \<le> 0 then 0 else min (nat \<lfloor>r\<rfloor>) 9007199254740991)"

fun Array_from :: "nat \<Rightarrow> ('s \<Rightarrow> (js_error + 'a) \<times> 's) \<Rightarrow> 's \<Rightarrow> (js_error + 'a list) \<times> 's" where
  "Array_from 0 f s = (Inr [], s)"
| "Array_from (Suc n) f s =
     (case f s of
        (Inl e, s') \<Rightarrow> (Inl e, s')
      | (Inr x, s') \<Rightarrow>
          (case Array_from n f s' of
             (Inl e, s'') \<Rightarrow> (Inl e, s'')
           | (Inr xs, s'') \<Rightarrow> (Inr (x # xs), s'')))"

subsection \<open>The reactive state (lines 13-31)\<close>

datatype HttpMethod = GET | POST | PUT | DELETE

fun method_text :: "HttpMethod \<Rightarrow> string" where
  "method_text GET = ''GET''"
| "method_text POST = ''POST''"
| "method_text PUT = ''PUT''"
| "method_text DELETE = ''DELETE''"

text \<open>
  The error line is empty, the message of a caught exception (line 94), or that message
  behind the label of a failed OpenAPI conversion (line 166). The field \<^verbatim>\<open>method\<close> of the
  source is \<open>http_method\<close> here.
\<close>

datatype error_text = NoError | Message js_error | OpenApiFailed js_error

record app_state =
  endpoint :: string
  http_method :: HttpMethod
  count :: count_value
  schemaText :: string
  result :: "jsval list option"
  error :: error_text
  working :: bool

definition onGenerate ::
  "(string \<Rightarrow> js_error + jsval) \<Rightarrow> (string \<Rightarrow> jsnum) \<Rightarrow> 's faker \<Rightarrow> app_state \<Rightarrow> 's
     \<Rightarrow> app_state \<times> 's" where
  "onGenerate JSON_parse StringToNumber fk st s =
     (let st1 = st\<lparr>error := NoError, working := True\<rparr> in
      case parseSchema JSON_parse (schemaText st1) of
        Inl e \<Rightarrow> (st1\<lparr>error := Message e, result := None, working := False\<rparr>, s)
      | Inr schema \<Rightarrow>
          (let n = Math_max (Fin 1)
                     (Math_min (Fin 10000)
                        (or_else (Number_js StringToNumber (count st1)) (Fin 1)))
           in case Array_from (ToLength n) (buildRecord fk schema) s of
                (Inl e, s') \<Rightarrow> (st1\<lparr>error := Message e, result := None, working := False\<rparr>, s')
              | (Inr recs, s') \<Rightarrow> (st1\<lparr>result := Some recs, working := False\<rparr>, s')))"

section \<open>The mock-handler renderer (lines 39-51)\<close>

text \<open>
  The placeholder of line 40 is a comment in Japanese ("it is put here after generation"),
  given by its UTF-8 bytes. \<^verbatim>\<open>JSON.stringify(x, null, 2)\<close> is the engine's and is a
  parameter.
\<close>

definition placeholder :: string where
  "placeholder = ''// '' @
     [CHR 0xE7, CHR 0x94, CHR 0x9F, CHR 0xE6, CHR 0x88, CHR 0x90, CHR 0xE5, CHR 0xBE, CHR 0x8C,
      CHR 0xE3, CHR 0x81, CHR 0xAB, CHR 0xE3, CHR 0x81, CHR 0x93, CHR 0xE3, CHR 0x81, CHR 0x93,
      CHR 0xE3, CHR 0x81, CHR 0xAB, CHR 0xE5, CHR 0x87, CHR 0xBA, CHR 0xE5, CHR 0x8A, CHR 0x9B,
      CHR 0xE3, CHR 0x81, CHR 0x95, CHR 0xE3, CHR 0x82, CHR 0x8C, CHR 0xE3, CHR 0x81, CHR 0xBE,
      CHR 0xE3, CHR 0x81, CHR 0x99]"

definition newline :: string where
  "newline = [CHR 0x0A]"

definition quote :: string where
  "quote = [CHR 0x27]"

definition mswText :: "(jsval \<Rightarrow> string) \<Rightarrow> app_state \<Rightarrow> string" where
  "mswText JSON_stringify st =
     (case result st of
        None \<Rightarrow> placeholder
      | Some r \<Rightarrow>
          (let data = JSON_stringify (JArr r);
               ep = (if endpoint st = [] then ''/'' else endpoint st);
               m = toLowerCase (method_text (http_method st))
           in ''import { rest } from '' @ quote @ ''msw'' @ quote @ newline @
              newline @
              ''export const handlers = ['' @ newline @
              ''  rest.'' @ m @ ''('' @ quote @ ep @ quote @ '', (req, res, ctx) => {'' @ newline @
              ''    return res(ctx.json('' @ data @ ''))'' @ newline @
              ''  })'' @ newline @
              '']''))"

section \<open>The OpenAPI reducer (lines 125-170)\<close>

text \<open>
  \<open>mapSchemaType\<close> is called with \<^verbatim>\<open>v.type\<close> and \<^verbatim>\<open>v.format\<close> of an untyped node, so its
  arguments are arbitrary values; \<^verbatim>\<open>===\<close> against a string literal holds for that string
  only.
\<close>

definition mapSchemaType :: "jsval \<Rightarrow> jsval \<Rightarrow> string" where
  "mapSchemaType t f =
     (if f = JStr ''uuid'' then ''uuid''
      else if f = JStr ''email'' then ''email''
      else if f = JStr ''date'' \<or> f = JStr ''date-time'' then ''date:YYYY-MM-DD''
      else if t = JStr ''string'' then ''string''
      else if t = JStr ''integer'' \<or> t = JStr ''number'' then ''number''
      else ''string'')"

fun convertProps_loop ::
  "(string \<times> jsval) list \<Rightarrow> (string \<times> jsval) list \<Rightarrow> js_error + (string \<times> jsval) list" where
  "convertProps_loop [] r = Inr r"
| "convertProps_loop ((k, v) # es) r =
     (case get_prop v ''type'' of
        Inl e \<Rightarrow> Inl e
      | Inr t \<Rightarrow>
          (case get_prop v ''format'' of
             Inl e \<Rightarrow> Inl e
           | Inr f \<Rightarrow> convertProps_loop es (obj_set r k (JStr (mapSchemaType t f)))))"

definition convertProps :: "jsval \<Rightarrow> js_error + jsval" where
  "convertProps props =
     (case Object_entries (if truthy props then props else JObj []) of
        Inl e \<Rightarrow> Inl e
      | Inr es \<Rightarrow>
          (case convertProps_loop es [] of Inl e \<Rightarrow> Inl e | Inr r \<Rightarrow> Inr (JObj r)))"

definition openApiToSchema :: "jsval \<Rightarrow> js_error + jsval" where
  "openApiToSchema doc =
     (if \<not> truthy (opt_get doc ''paths'') then Inl (Error PathsNotFound)
      else
       (case get_prop doc ''paths'' of Inl e \<Rightarrow> Inl e | Inr paths \<Rightarrow>
       (case Object_keys paths of Inl e \<Rightarrow> Inl e | Inr path_names \<Rightarrow>
       (let path = first_key path_names in
       (case get_prop paths (key_text path) of Inl e \<Rightarrow> Inl e | Inr path_item \<Rightarrow>
       (case Object_keys path_item of Inl e \<Rightarrow> Inl e | Inr method_names \<Rightarrow>
       (let method = first_key method_names in
       (case get_prop path_item (key_text method) of Inl e \<Rightarrow> Inl e | Inr operation \<Rightarrow>
       (let resp = opt_get (opt_get operation ''responses'') ''200'';
            schema = opt_get (opt_get (opt_get resp ''content'') ''application/json'') ''schema''
        in
        if \<not> truthy schema then Inl (Error JsonSchemaNotFound)
        else
         (case get_prop schema ''type'' of Inl e \<Rightarrow> Inl e | Inr ty \<Rightarrow>
         (case get_prop schema ''items'' of Inl e \<Rightarrow> Inl e | Inr items \<Rightarrow>
          if ty = JStr ''array'' \<and> truthy (opt_get items ''properties'')
          then convertProps (opt_get items ''properties'')
          else
           (case get_prop schema ''properties'' of Inl e \<Rightarrow> Inl e | Inr props \<Rightarrow>
            if ty = JStr ''object'' \<and> truthy props then convertProps props
            else Inl (Error UnsupportedSchema)))))))))))))"

text \<open>
  \<open>is_yaml_name\<close> is the test \<^verbatim>\<open>/\.(ya?ml)$/i\<close> of line 162 on the file's name. The two
  document parsers and the serializer are parameters.
\<close>

definition is_yaml_name :: "string \<Rightarrow> bool" where
  "is_yaml_name name =
     (endsWith (toLowerCase name) ''.yaml'' \<or> endsWith (toLowerCase name) ''.yml'')"

text \<open>
  The body of \<^verbatim>\<open>reader.onload\<close> (lines 159-168), once the file's text has been read.
\<close>

definition onload ::
  "(string \<Rightarrow> js_error + jsval) \<Rightarrow> (string \<Rightarrow> js_error + jsval) \<Rightarrow> (jsval \<Rightarrow> string)
     \<Rightarrow> string \<Rightarrow> string \<Rightarrow> app_state \<Rightarrow> app_state" where
  "onload yaml_load JSON_parse JSON_stringify file_name text st =
     (case (if is_yaml_name file_name then yaml_load text else JSON_parse text) of
        Inl e \<Rightarrow> st\<lparr>error := OpenApiFailed e\<rparr>
      | Inr doc \<Rightarrow>
          (case openApiToSchema doc of
             Inl e \<Rightarrow> st\<lparr>error := OpenApiFailed e\<rparr>
           | Inr schema \<Rightarrow> st\<lparr>schemaText := JSON_stringify schema\<rparr>))"

text \<open>
  \<open>onOpenApiUpload\<close>: with no file chosen nothing happens (line 157); otherwise the
  file, here its name and text, is read and handed to \<open>onload\<close>.
\<close>

definition onOpenApiUpload ::
  "(string \<Rightarrow> js_error + jsval) \<Rightarrow> (string \<Rightarrow> js_error + jsval) \<Rightarrow> (jsval \<Rightarrow> string)
     \<Rightarrow> (string \<times> string) option \<Rightarrow> app_state \<Rightarrow> app_state" where
  "onOpenApiUpload yaml_load JSON_parse JSON_stringify file st =
     (case file of
        None \<Rightarrow> st
      | Some (file_name, text) \<Rightarrow> onload yaml_load JSON_parse JSON_stringify file_name text st)"

section \<open>Inputs and predicates of the properties\<close>

text \<open>
  The OpenAPI document of the end-to-end example: one path \<^verbatim>\<open>/pets\<close>, one operation
  \<^verbatim>\<open>get\<close>, whose response 200 has an \<^verbatim>\<open>application/json\<close> schema of type array with
  the item properties \<^verbatim>\<open>id\<close> (string, format uuid) and \<^verbatim>\<open>age\<close> (integer).
\<close>

definition pets_document :: jsval where
  "pets_document =
     JObj [(''paths'',
       JObj [(''/pets'',
         JObj [(''get'',
           JObj [(''responses'',
             JObj [(''200'',
               JObj [(''content'',
                 JObj [(''application/json'',
                   JObj [(''schema'',
                     JObj [(''type'', JStr ''array''),
                           (''items'',
                             JObj [(''properties'',
                               JObj [(''id'', JObj [(''type'', JStr ''string''),
                                                    (''format'', JStr ''uuid'')]),
                                     (''age'', JObj [(''type'', JStr ''integer'')])])])])])])])])])])])]"

text \<open>
  \<open>matches_date sep d\<close>: the text \<open>d\<close> is four digits, \<open>sep\<close>, two digits, \<open>sep\<close>, two
  digits, and nothing else (the patterns \<^verbatim>\<open>\d{4}-\d{2}-\d{2}\<close> and \<^verbatim>\<open>\d{4}/\d{2}/\d{2}\<close>).
\<close>

definition matches_date :: "char \<Rightarrow> string \<Rightarrow> bool" where
  "matches_date sep d =
     (length d = 10 \<and> list_all is_digit (take 4 d) \<and> d ! 4 = sep
      \<and> list_all is_digit (take 2 (drop 5 d)) \<and> d ! 7 = sep \<and> list_all is_digit (drop 8 d))"

text \<open>
  What a \<^verbatim>\<open>Date\<close> guarantees of its getters, for a date whose year has four digits: the
  dates faker draws lie between 2018 and 2025, a day either side by the local time zone.
\<close>

definition valid_date :: "js_date \<Rightarrow> bool" where
  "valid_date d =
     (1000 \<le> getFullYear d \<and> getFullYear d \<le> 9999
      \<and> 0 \<le> getMonth d \<and> getMonth d \<le> 11
      \<and> 1 \<le> getDate d \<and> getDate d \<le> 31)"

text \<open>
  A faker for the concrete instances below: its random state is a counter, and every
  draw is computed from the counter and advances it.
\<close>

definition demo_faker :: "nat faker" where
  "demo_faker =
     \<lparr> string_uuid = (\<lambda>s. (''uuid-'' @ String_nat s, Suc s)),
       person_fullName = (\<lambda>s. (''Name '' @ String_nat s, Suc s)),
       internet_email = (\<lambda>s. (''User'' @ String_nat s @ ''@Example.org'', Suc s)),
       number_int = (\<lambda>lo hi s. (lo + int s mod (hi - lo + 1), Suc s)),
       date_between = (\<lambda>from to s.
         (\<lparr> getFullYear = 2018 + int s mod 8, getMonth = int s mod 12,
             getDate = 1 + int s mod 28, toISOString = ''2018-01-01T00:00:00.000Z'' \<rparr>,
          Suc s)) \<rparr>"

text \<open>
  A stand-in for \<^verbatim>\<open>JSON.parse\<close> in the concrete instances: it decodes the few texts
  used there as \<^verbatim>\<open>JSON.parse\<close> does, and is applied to no other text.
\<close>

definition double_quote :: string where
  "double_quote = [CHR 0x22]"

definition m_schema_text :: string where
  "m_schema_text =
     ''{'' @ double_quote @ ''m'' @ double_quote @ '':'' @ double_quote @ ''string''
       @ double_quote @ ''}''"

definition proto_schema_text :: string where
  "proto_schema_text =
     ''{'' @ double_quote @ ''__proto__'' @ double_quote @ '':'' @ double_quote @ ''uuid''
       @ double_quote @ ''}''"

definition demo_JSON_parse :: "string \<Rightarrow> js_error + jsval" where
  "demo_JSON_parse txt =
     (if txt = ''[1,2,3]'' then Inr (JArr [JNum (Fin 1), JNum (Fin 2), JNum (Fin 3)])
      else if txt = ''{}'' then Inr (JObj [])
      else if txt = ''null'' then Inr JNull
      else if txt = m_schema_text then Inr (JObj [(''m'', JStr ''string'')])
      else if txt = proto_schema_text then Inr (JObj [(''__proto__'', JStr ''uuid'')])
      else Inl SyntaxError)"

text \<open>A field of a flat schema holds a type tag, which is text.\<close>

fun is_text :: "jsval \<Rightarrow> bool" where
  "is_text (JStr s) = True"
| "is_text v = False"

text \<open>
  The state of the concrete instances: the initial values of lines 16-31, with the
  one-field schema of the end-to-end example as schema text.
\<close>

definition demo_state :: app_state where
  "demo_state =
     \<lparr> endpoint = ''/users'', http_method = GET, count = CountNumber (Fin 5),
       schemaText = m_schema_text, result = None, error = NoError, working = False \<rparr>"

text \<open>
  A stand-in for the engine's conversion of text to a number: the empty text is 0, and
  the other text it is applied to below, \<^verbatim>\<open>abc\<close>, is not a number.
\<close>

definition demo_StringToNumber :: "string \<Rightarrow> jsnum" where
  "demo_StringToNumber txt = (if txt = [] then Fin 0 else NaN)"

text \<open>
  The order in which an engine lists the own properties of an object: array indices
  first, ascending, then the other names as they were created. \<open>ordered_pair a b\<close> says
  that \<open>b\<close> may directly follow \<open>a\<close>. A flat schema is what \<^verbatim>\<open>Object.entries\<close> gives for
  an object whose values are all text: distinct names in that order.
\<close>

definition ordered_pair :: "string \<Rightarrow> string \<Rightarrow> bool" where
  "ordered_pair a b =
     (case array_index b of
        None \<Rightarrow> True
      | Some j \<Rightarrow> (case array_index a of None \<Rightarrow> False | Some i \<Rightarrow> i < j))"

fun js_ordered :: "string list \<Rightarrow> bool" where
  "js_ordered [] = True"
| "js_ordered [k] = True"
| "js_ordered (a # b # ks) = (ordered_pair a b \<and> js_ordered (b # ks))"

definition flat_schema :: "(string \<times> jsval) list \<Rightarrow> bool" where
  "flat_schema S =
     (distinct (map fst S) \<and> js_ordered (map fst S) \<and> list_all (\<lambda>p. is_text (snd p)) S)"

text \<open>The five tags the reducer can write.\<close>

definition known_tag :: "jsval \<Rightarrow> bool" where
  "known_tag t =
     (t \<in> {JStr ''uuid'', JStr ''email'', JStr ''date:YYYY-MM-DD'', JStr ''string'', JStr ''number''})"

text \<open>
  A second document, of the object form: one operation whose response schema has the
  properties \<^verbatim>\<open>email\<close> (format email), \<^verbatim>\<open>joined_at\<close> (format date-time) and \<^verbatim>\<open>visits\<close>
  (type number).
\<close>

definition users_document :: jsval where
  "users_document =
     JObj [(''openapi'', JStr ''3.0.0''),
           (''paths'',
             JObj [(''/users/{id}'',
               JObj [(''get'',
                 JObj [(''responses'',
                   JObj [(''200'',
                     JObj [(''content'',
                       JObj [(''application/json'',
                         JObj [(''schema'',
                           JObj [(''type'', JStr ''object''),
                                 (''properties'',
                                   JObj [(''email'', JObj [(''type'', JStr ''string''),
                                                           (''format'', JStr ''email'')]),
                                         (''joined_at'', JObj [(''type'', JStr ''string''),
                                                               (''format'', JStr ''date-time'')]),
                                         (''visits'', JObj [(''type'', JStr ''number'')])])])])])])])])])])]"

text \<open>
  What the value synthesizer is to return on each of the five tags, with the random state
  it leaves: the draw of faker for that tag, an e-mail address in lower case, an integer
  drawn from 0 to 9999 as a number, a date drawn from 2018-01-01 to 2025-12-31 as year,
  month and day with hyphens (\<open>dash_date\<close>, lines 65-66). \<open>synthesized fk t s r\<close> holds of no
  other tag and of no other result.
\<close>

fun is_number :: "jsval \<Rightarrow> bool" where
  "is_number (JNum (Fin r)) = True"
| "is_number v = False"

definition dash_date :: "js_date \<Rightarrow> string" where
  "dash_date dt =
     String_int (getFullYear dt) @ ''-''
       @ padStart 2 (CHR ''0'') (String_int (getMonth dt + 1)) @ ''-''
       @ padStart 2 (CHR ''0'') (String_int (getDate dt))"

definition synthesized :: "'s faker \<Rightarrow> jsval \<Rightarrow> 's \<Rightarrow> jsval \<times> 's \<Rightarrow> bool" where
  "synthesized fk t s r =
     (t = JStr ''uuid''
        \<and> r = (JStr (fst (string_uuid fk s)), snd (string_uuid fk s))
      \<or> t = JStr ''email''
        \<and> r = (JStr (toLowerCase (fst (internet_email fk s))), snd (internet_email fk s))
      \<or> t = JStr ''string''
        \<and> r = (JStr (fst (person_fullName fk s)), snd (person_fullName fk s))
      \<or> t = JStr ''number''
        \<and> r = (JNum (Fin (of_int (fst (number_int fk 0 9999 s)))), snd (number_int fk 0 9999 s))
      \<or> t = JStr ''date:YYYY-MM-DD''
        \<and> r = (JStr (dash_date (fst (date_between fk ''2018-01-01'' ''2025-12-31'' s))),
               snd (date_between fk ''2018-01-01'' ''2025-12-31'' s)))"

section \<open>Decimal text\<close>

lemma digit_char_is_digit: "n < 10 \<Longrightarrow> is_digit (''0123456789'' ! n)"
proof -
  assume "n < 10"
  then have "n \<in> {0, 1, 2, 3, 4, 5, 6, 7, 8, 9}" by auto
  then show ?thesis by (auto simp: is_digit_def)
qed

lemma String_nat_small: "n < 10 \<Longrightarrow> String_nat n = [''0123456789'' ! n]"
  by (subst String_nat.simps) simp

lemma String_nat_step:
  "10 \<le> n \<Longrightarrow> String_nat n = String_nat (n div 10) @ [''0123456789'' ! (n mod 10)]"
  by (subst String_nat.simps) simp

lemma String_nat_digits: "list_all is_digit (String_nat n)"
proof (induction n rule: String_nat.induct)
  case (1 n)
  show ?case
  proof (cases "n < 10")
    case True
    then show ?thesis by (simp add: String_nat_small digit_char_is_digit)
  next
    case False
    then have "list_all is_digit (String_nat (n div 10))" using "1.IH" by simp
    moreover have "is_digit (''0123456789'' ! (n mod 10))" by (rule digit_char_is_digit) simp
    ultimately show ?thesis using False by (simp add: String_nat_step)
  qed
qed

lemma length_String_nat_1: "n < 10 \<Longrightarrow> length (String_nat n) = 1"
  by (simp add: String_nat_small)

lemma length_String_nat_2: "10 \<le> n \<Longrightarrow> n < 100 \<Longrightarrow> length (String_nat n) = 2"
  by (simp add: String_nat_step length_String_nat_1)

lemma length_String_nat_3:
  assumes "100 \<le> n" "n < 1000"
  shows "length (String_nat n) = 3"
proof -
  have "10 \<le> n div 10" "n div 10 < 100" using assms by auto
  then have "length (String_nat (n div 10)) = 2" by (rule length_String_nat_2)
  moreover have "String_nat n = String_nat (n div 10) @ [''0123456789'' ! (n mod 10)]"
    using assms by (intro String_nat_step) simp
  ultimately show ?thesis by simp
qed

lemma length_String_nat_4:
  assumes "1000 \<le> n" "n < 10000"
  shows "length (String_nat n) = 4"
proof -
  have "100 \<le> n div 10" "n div 10 < 1000" using assms by auto
  then have "length (String_nat (n div 10)) = 3" by (rule length_String_nat_3)
  moreover have "String_nat n = String_nat (n div 10) @ [''0123456789'' ! (n mod 10)]"
    using assms by (intro String_nat_step) simp
  ultimately show ?thesis by simp
qed

lemma year_text:
  assumes "1000 \<le> y" "y \<le> 9999"
  shows "length (String_int y) = 4 \<and> list_all is_digit (String_int y)"
proof -
  have "String_int y = String_nat (nat y)" using assms by (simp add: String_int_def)
  moreover have "1000 \<le> nat y" "nat y < 10000" using assms by auto
  ultimately show ?thesis by (simp add: length_String_nat_4 String_nat_digits)
qed

lemma two_digit_text:
  assumes "0 \<le> i" "i \<le> 99"
  shows "length (padStart 2 (CHR ''0'') (String_int i)) = 2
         \<and> list_all is_digit (padStart 2 (CHR ''0'') (String_int i))"
proof -
  have eq: "String_int i = String_nat (nat i)" using assms by (simp add: String_int_def)
  have zero: "is_digit (CHR ''0'')" by (simp add: is_digit_def)
  show ?thesis
  proof (cases "nat i < 10")
    case True
    then show ?thesis
      using zero String_nat_digits [of "nat i"]
      by (simp add: eq padStart_def length_String_nat_1)
  next
    case False
    then have "10 \<le> nat i" "nat i < 100" using assms by auto
    then show ?thesis
      using String_nat_digits [of "nat i"]
      by (simp add: eq padStart_def length_String_nat_2)
  qed
qed

lemma date_text_matches:
  assumes "length y = 4" "list_all is_digit y" "length m = 2" "list_all is_digit m"
    "length d = 2" "list_all is_digit d"
  shows "matches_date sep (y @ [sep] @ m @ [sep] @ d)"
  using assms by (simp add: matches_date_def nth_append)

section \<open>The value synthesizer\<close>

lemma date_parts:
  assumes "valid_date dt"
  shows "matches_date sep (String_int (getFullYear dt) @ [sep]
           @ padStart 2 (CHR ''0'') (String_int (getMonth dt + 1)) @ [sep]
           @ padStart 2 (CHR ''0'') (String_int (getDate dt)))"
proof -
  have y: "length (String_int (getFullYear dt)) = 4 \<and> list_all is_digit (String_int (getFullYear dt))"
    using assms by (intro year_text) (simp_all add: valid_date_def)
  have m: "length (padStart 2 (CHR ''0'') (String_int (getMonth dt + 1))) = 2
         \<and> list_all is_digit (padStart 2 (CHR ''0'') (String_int (getMonth dt + 1)))"
    using assms by (intro two_digit_text) (simp_all add: valid_date_def)
  have d: "length (padStart 2 (CHR ''0'') (String_int (getDate dt))) = 2
         \<and> list_all is_digit (padStart 2 (CHR ''0'') (String_int (getDate dt)))"
    using assms by (intro two_digit_text) (simp_all add: valid_date_def)
  show ?thesis using y m d by (intro date_text_matches) simp_all
qed

lemma genValue_text_returns: "\<exists>v s'. genValue fk (JStr ts) s = (Inr v, s')"
  by (simp add: genValue_def Let_def split_def)

lemma genValue_unknown:
  "\<not> startsWith ts ''date:'' \<Longrightarrow> ts \<notin> {''uuid'', ''string'', ''email'', ''number''}
     \<Longrightarrow> genValue fk (JStr ts) s = (Inr JNull, s)"
  by (simp add: genValue_def)


lemma genValue_number:
  "genValue fk (JStr ''number'') s
     = (Inr (JNum (Fin (of_int (fst (number_int fk 0 9999 s))))), snd (number_int fk 0 9999 s))"
  by (simp add: genValue_def startsWith_def Let_def split_def)

lemma genValue_date_dash:
  "genValue fk (JStr ''date:YYYY-MM-DD'') s
     = (Inr (JStr (String_int (getFullYear (fst (date_between fk ''2018-01-01'' ''2025-12-31'' s))) @ ''-''
           @ padStart 2 (CHR ''0'') (String_int (getMonth (fst (date_between fk ''2018-01-01'' ''2025-12-31'' s)) + 1)) @ ''-''
           @ padStart 2 (CHR ''0'') (String_int (getDate (fst (date_between fk ''2018-01-01'' ''2025-12-31'' s)))))),
        snd (date_between fk ''2018-01-01'' ''2025-12-31'' s))"
  by (simp add: genValue_def startsWith_def slice_from_def Let_def split_def)

lemma genValue_date_slash:
  "genValue fk (JStr ''date:YYYY/MM/DD'') s
     = (Inr (JStr (String_int (getFullYear (fst (date_between fk ''2018-01-01'' ''2025-12-31'' s))) @ ''/''
           @ padStart 2 (CHR ''0'') (String_int (getMonth (fst (date_between fk ''2018-01-01'' ''2025-12-31'' s)) + 1)) @ ''/''
           @ padStart 2 (CHR ''0'') (String_int (getDate (fst (date_between fk ''2018-01-01'' ''2025-12-31'' s)))))),
        snd (date_between fk ''2018-01-01'' ''2025-12-31'' s))"
  by (simp add: genValue_def startsWith_def slice_from_def Let_def split_def)


text \<open>
  Claim C4. The value synthesizer returns a value, and never throws, on every text. With a
  faker that keeps its contract (an integer within the bounds asked for, a date with a
  four-digit year), the tag \<^verbatim>\<open>number\<close> gives an integer from 0 to 9999, the tag
  \<^verbatim>\<open>date:YYYY-MM-DD\<close> gives four digits, a hyphen, two digits, a hyphen and two digits, the
  tag \<^verbatim>\<open>date:YYYY/MM/DD\<close> the same with slashes, and every tag that is none of \<^verbatim>\<open>uuid\<close>,
  \<^verbatim>\<open>string\<close>, \<^verbatim>\<open>email\<close>, \<^verbatim>\<open>number\<close> and does not start with \<^verbatim>\<open>date:\<close> gives
  \<^verbatim>\<open>null\<close>, the unknown marker, drawing nothing from the random source.
\<close>

theorem genValue_total:
  assumes num: "\<And>s. 0 \<le> fst (number_int fk 0 9999 s) \<and> fst (number_int fk 0 9999 s) \<le> 9999"
    and date: "\<And>s. valid_date (fst (date_between fk ''2018-01-01'' ''2025-12-31'' s))"
  shows "(\<exists>v s'. genValue fk (JStr ts) s = (Inr v, s'))
    \<and> (\<exists>i s'. genValue fk (JStr ''number'') s = (Inr (JNum (Fin (of_int i))), s') \<and> 0 \<le> i \<and> i \<le> 9999)
    \<and> (\<exists>d s'. genValue fk (JStr ''date:YYYY-MM-DD'') s = (Inr (JStr d), s') \<and> matches_date (CHR ''-'') d)
    \<and> (\<exists>d s'. genValue fk (JStr ''date:YYYY/MM/DD'') s = (Inr (JStr d), s') \<and> matches_date (CHR ''/'') d)
    \<and> (\<not> startsWith ts ''date:'' \<and> ts \<notin> {''uuid'', ''string'', ''email'', ''number''}
          \<longrightarrow> genValue fk (JStr ts) s = (Inr JNull, s))"
proof (intro conjI)
  show "\<exists>v s'. genValue fk (JStr ts) s = (Inr v, s')" by (rule genValue_text_returns)
next
  show "\<exists>i s'. genValue fk (JStr ''number'') s = (Inr (JNum (Fin (of_int i))), s') \<and> 0 \<le> i \<and> i \<le> 9999"
  proof (intro exI conjI)
    show "genValue fk (JStr ''number'') s
            = (Inr (JNum (Fin (of_int (fst (number_int fk 0 9999 s))))), snd (number_int fk 0 9999 s))"
      by (rule genValue_number)
    show "0 \<le> fst (number_int fk 0 9999 s)" using num [of s] by simp
    show "fst (number_int fk 0 9999 s) \<le> 9999" using num [of s] by simp
  qed
next
  show "\<exists>d s'. genValue fk (JStr ''date:YYYY-MM-DD'') s = (Inr (JStr d), s') \<and> matches_date (CHR ''-'') d"
  proof (intro exI conjI)
    show "genValue fk (JStr ''date:YYYY-MM-DD'') s
     = (Inr (JStr (String_int (getFullYear (fst (date_between fk ''2018-01-01'' ''2025-12-31'' s))) @ ''-''
           @ padStart 2 (CHR ''0'') (String_int (getMonth (fst (date_between fk ''2018-01-01'' ''2025-12-31'' s)) + 1)) @ ''-''
           @ padStart 2 (CHR ''0'') (String_int (getDate (fst (date_between fk ''2018-01-01'' ''2025-12-31'' s)))))),
        snd (date_between fk ''2018-01-01'' ''2025-12-31'' s))"
      by (rule genValue_date_dash)
    show "matches_date (CHR ''-'') (String_int (getFullYear (fst (date_between fk ''2018-01-01'' ''2025-12-31'' s))) @ ''-''
           @ padStart 2 (CHR ''0'') (String_int (getMonth (fst (date_between fk ''2018-01-01'' ''2025-12-31'' s)) + 1)) @ ''-''
           @ padStart 2 (CHR ''0'') (String_int (getDate (fst (date_between fk ''2018-01-01'' ''2025-12-31'' s)))))"
      by (rule date_parts [OF date])
  qed
next
  show "\<exists>d s'. genValue fk (JStr ''date:YYYY/MM/DD'') s = (Inr (JStr d), s') \<and> matches_date (CHR ''/'') d"
  proof (intro exI conjI)
    show "genValue fk (JStr ''date:YYYY/MM/DD'') s
     = (Inr (JStr (String_int (getFullYear (fst (date_between fk ''2018-01-01'' ''2025-12-31'' s))) @ ''/''
           @ padStart 2 (CHR ''0'') (String_int (getMonth (fst (date_between fk ''2018-01-01'' ''2025-12-31'' s)) + 1)) @ ''/''
           @ padStart 2 (CHR ''0'') (String_int (getDate (fst (date_between fk ''2018-01-01'' ''2025-12-31'' s)))))),
        snd (date_between fk ''2018-01-01'' ''2025-12-31'' s))"
      by (rule genValue_date_slash)
    show "matches_date (CHR ''/'') (String_int (getFullYear (fst (date_between fk ''2018-01-01'' ''2025-12-31'' s))) @ ''/''
           @ padStart 2 (CHR ''0'') (String_int (getMonth (fst (date_between fk ''2018-01-01'' ''2025-12-31'' s)) + 1)) @ ''/''
           @ padStart 2 (CHR ''0'') (String_int (getDate (fst (date_between fk ''2018-01-01'' ''2025-12-31'' s)))))"
      by (rule date_parts [OF date])
  qed
next
  show "\<not> startsWith ts ''date:'' \<and> ts \<notin> {''uuid'', ''string'', ''email'', ''number''}
          \<longrightarrow> genValue fk (JStr ts) s = (Inr JNull, s)"
    by (intro impI, elim conjE) (rule genValue_unknown)
qed


lemma demo_faker_number:
  "0 \<le> fst (number_int demo_faker 0 9999 s) \<and> fst (number_int demo_faker 0 9999 s) \<le> 9999"
  by (simp add: demo_faker_def)

lemma demo_faker_date: "valid_date (fst (date_between demo_faker from to s))"
proof -
  have "int s mod 8 < 8" by (rule pos_mod_bound) simp
  moreover have "int s mod 12 < 12" by (rule pos_mod_bound) simp
  moreover have "int s mod 28 < 28" by (rule pos_mod_bound) simp
  ultimately have "int s mod 8 \<le> 7981 \<and> int s mod 12 \<le> 11 \<and> int s mod 28 \<le> 30" by linarith
  then show ?thesis by (simp add: demo_faker_def valid_date_def)
qed

text \<open>The instance of C4 at the demonstration faker and the tag \<^verbatim>\<open>unknown-tag\<close>.\<close>

theorem genValue_total_witness:
  "genValue demo_faker (JStr ''unknown-tag'') 0 = (Inr JNull, 0)
   \<and> (\<exists>i s'. genValue demo_faker (JStr ''number'') 0 = (Inr (JNum (Fin (of_int i))), s') \<and> 0 \<le> i \<and> i \<le> 9999)
   \<and> (\<exists>d s'. genValue demo_faker (JStr ''date:YYYY-MM-DD'') 0 = (Inr (JStr d), s') \<and> matches_date (CHR ''-'') d)"
proof -
  note t = genValue_total [of demo_faker "''unknown-tag''" 0, OF demo_faker_number demo_faker_date]
  have u: "\<not> startsWith ''unknown-tag'' ''date:''
           \<and> ''unknown-tag'' \<notin> {''uuid'', ''string'', ''email'', ''number''}"
    by (simp add: startsWith_def)
  have a: "genValue demo_faker (JStr ''unknown-tag'') 0 = (Inr JNull, 0)"
    using t [THEN conjunct2, THEN conjunct2, THEN conjunct2, THEN conjunct2] u by (rule mp)
  show ?thesis
    using a t [THEN conjunct2, THEN conjunct1] t [THEN conjunct2, THEN conjunct2, THEN conjunct1]
    by (intro conjI)
qed

section \<open>The type mapping and the reducer\<close>

text \<open>
  Claim C7. \<open>mapSchemaType\<close> is a function of its two arguments alone and has a value on
  every pair, absent (\<^verbatim>\<open>undefined\<close>) or not. The format decides first: \<^verbatim>\<open>uuid\<close>, \<^verbatim>\<open>email\<close>,
  \<^verbatim>\<open>date\<close> and \<^verbatim>\<open>date-time\<close> give their tag whatever the type. With any other format the
  type decides: \<^verbatim>\<open>string\<close> gives \<^verbatim>\<open>string\<close>, \<^verbatim>\<open>integer\<close> and \<^verbatim>\<open>number\<close> give \<^verbatim>\<open>number\<close>,
  anything else gives the default \<^verbatim>\<open>string\<close>. The result is always one of the five tags.
\<close>

theorem mapSchemaType_table:
  "mapSchemaType t (JStr ''uuid'') = ''uuid''
   \<and> mapSchemaType t (JStr ''email'') = ''email''
   \<and> mapSchemaType t (JStr ''date'') = ''date:YYYY-MM-DD''
   \<and> mapSchemaType t (JStr ''date-time'') = ''date:YYYY-MM-DD''
   \<and> (f \<notin> {JStr ''uuid'', JStr ''email'', JStr ''date'', JStr ''date-time''} \<longrightarrow>
        mapSchemaType (JStr ''string'') f = ''string''
      \<and> mapSchemaType (JStr ''integer'') f = ''number''
      \<and> mapSchemaType (JStr ''number'') f = ''number''
      \<and> (t \<notin> {JStr ''string'', JStr ''integer'', JStr ''number''}
            \<longrightarrow> mapSchemaType t f = ''string''))
   \<and> mapSchemaType t f \<in> {''uuid'', ''email'', ''date:YYYY-MM-DD'', ''string'', ''number''}"
  by (simp add: mapSchemaType_def)

text \<open>
  The instance of C7 at a missing format with the type \<^verbatim>\<open>integer\<close> and with a missing type,
  and at the format \<^verbatim>\<open>uuid\<close> over the type \<^verbatim>\<open>integer\<close>.
\<close>

theorem mapSchemaType_table_witness:
  "JUndefined \<notin> {JStr ''uuid'', JStr ''email'', JStr ''date'', JStr ''date-time''}
   \<and> mapSchemaType (JStr ''integer'') JUndefined = ''number''
   \<and> JUndefined \<notin> {JStr ''string'', JStr ''integer'', JStr ''number''}
   \<and> mapSchemaType JUndefined JUndefined = ''string''
   \<and> mapSchemaType (JStr ''integer'') (JStr ''uuid'') = ''uuid''"
  using mapSchemaType_table [of JUndefined JUndefined]
    mapSchemaType_table [of "JStr ''integer''" JUndefined]
  by simp

text \<open>
  Claim C5. On the document of the end-to-end example the reducer returns the schema with
  the two fields \<^verbatim>\<open>id\<close>, of tag \<^verbatim>\<open>uuid\<close>, and \<^verbatim>\<open>age\<close>, of tag \<^verbatim>\<open>number\<close>, in this order.
\<close>

theorem openApiToSchema_pets:
  "openApiToSchema pets_document = Inr (JObj [(''id'', JStr ''uuid''), (''age'', JStr ''number'')])"
  by (simp add: pets_document_def openApiToSchema_def opt_get_def Object_keys_def first_key_def
      key_text_def convertProps_def mapSchemaType_def obj_set_def array_index_def is_digit_def digit_val_def)

section \<open>The record generator\<close>

lemma genValue_text: "is_text t \<Longrightarrow> \<exists>v s'. genValue fk t s = (Inr v, s')"
  by (cases t) (simp_all add: genValue_text_returns)

lemma buildRecord_loop_returns:
  "list_all (\<lambda>p. is_text (snd p)) es \<Longrightarrow> \<exists>r s'. buildRecord_loop fk es rec s = (Inr r, s')"
proof (induction es arbitrary: rec s)
  case Nil
  then show ?case by simp
next
  case (Cons e es)
  obtain k t where e: "e = (k, t)" by (cases e)
  from Cons.prems e have "is_text t" by simp
  then obtain v s1 where g: "genValue fk t s = (Inr v, s1)" using genValue_text [of t fk s] by blast
  from Cons.prems have "list_all (\<lambda>p. is_text (snd p)) es" by simp
  then obtain r s' where "buildRecord_loop fk es (obj_set rec k v) s1 = (Inr r, s')"
    using Cons.IH [of "obj_set rec k v" s1] by blast
  then show ?case using e g by simp
qed

lemma buildRecord_returns:
  assumes "list_all (\<lambda>p. is_text (snd p)) S"
  shows "\<exists>r s'. buildRecord fk (JObj S) s = (Inr (JObj r), s')"
proof -
  obtain r s' where "buildRecord_loop fk S [] s = (Inr r, s')"
    using buildRecord_loop_returns [OF assms, of fk "[]" s] by blast
  then show ?thesis by (simp add: buildRecord_def)
qed

lemma Array_from_returns:
  assumes "\<And>s. \<exists>x s'. f s = (Inr x, s') \<and> P x"
  shows "\<exists>xs s'. Array_from n f s = (Inr xs, s') \<and> length xs = n \<and> list_all P xs"
proof (induction n arbitrary: s)
  case 0
  then show ?case by simp
next
  case (Suc n)
  obtain x s1 where f: "f s = (Inr x, s1)" "P x" using assms [of s] by blast
  obtain xs s' where "Array_from n f s1 = (Inr xs, s')" "length xs = n" "list_all P xs"
    using Suc.IH [of s1] by blast
  then show ?case using f by simp
qed

lemma clamp_count:
  "Math_max (Fin 1) (Math_min (Fin 10000) (or_else x (Fin 1))) =
     (case x of NaN \<Rightarrow> Fin 1 | NegInf \<Rightarrow> Fin 1 | PosInf \<Rightarrow> Fin 10000
      | Fin r \<Rightarrow> Fin (max 1 (min 10000 r)))"
  by (cases x) (simp_all add: or_else_def)

lemma ToLength_clamped:
  "ToLength (Fin (max 1 (min 10000 r))) = (if r < 1 then 1 else if 10000 < r then 10000 else nat \<lfloor>r\<rfloor>)"
proof (cases "r < 1")
  case True
  then show ?thesis by (simp add: max_def min_def)
next
  case False
  show ?thesis
  proof (cases "10000 < r")
    case True
    then show ?thesis by (simp add: max_def min_def)
  next
    case in_range: False
    have "r < 10001" using in_range by simp
    then have "\<lfloor>r\<rfloor> < 10001" by (simp add: floor_less_iff)
    then have "nat \<lfloor>r\<rfloor> \<le> 10000" by linarith
    then show ?thesis using False in_range by (simp add: max_def min_def)
  qed
qed

lemma parseSchema_object:
  "JSON_parse txt = Inr (JObj S) \<Longrightarrow> parseSchema JSON_parse txt = Inr (JObj S)"
  by (simp add: parseSchema_def)

lemma onGenerate_valid:
  assumes p: "JSON_parse (schemaText st) = Inr (JObj S)"
    and v: "list_all (\<lambda>p. is_text (snd p)) S"
    and P: "\<And>s0 r s1. buildRecord fk (JObj S) s0 = (Inr r, s1) \<Longrightarrow> P r"
  shows "\<exists>recs s'.
      onGenerate JSON_parse sn fk st s = (st\<lparr>result := Some recs, error := NoError, working := False\<rparr>, s')
    \<and> length recs = ToLength (Math_max (Fin 1) (Math_min (Fin 10000) (or_else (Number_js sn (count st)) (Fin 1))))
    \<and> list_all P recs"
proof -
  define n where "n = ToLength (Math_max (Fin 1) (Math_min (Fin 10000) (or_else (Number_js sn (count st)) (Fin 1))))"
  have each: "\<exists>x s'. buildRecord fk (JObj S) s0 = (Inr x, s') \<and> P x" for s0
  proof -
    obtain r s' where b: "buildRecord fk (JObj S) s0 = (Inr (JObj r), s')"
      using buildRecord_returns [OF v, of fk s0] by blast
    then have "P (JObj r)" by (rule P)
    with b show ?thesis by blast
  qed
  obtain recs s' where a: "Array_from n (buildRecord fk (JObj S)) s = (Inr recs, s')"
    "length recs = n" "list_all P recs"
    using Array_from_returns [of "buildRecord fk (JObj S)" P n s, OF each] by blast
  have "onGenerate JSON_parse sn fk st s = (st\<lparr>result := Some recs, error := NoError, working := False\<rparr>, s')"
    using a(1) by (simp add: onGenerate_def parseSchema_object [of JSON_parse "schemaText st" S, OF p] n_def)
  then show ?thesis using a(2,3) n_def by blast
qed

text \<open>
  Claim C3. With a schema object whose fields all hold text, generation succeeds and the
  number of records depends on \<^verbatim>\<open>Number(count)\<close> alone: 1 when that is \<^verbatim>\<open>NaN\<close> (a count
  that is not numeric), negative infinity or any number below 1; 10000 when it is
  infinity or any number above 10000; and the whole part of the count in between.
\<close>

theorem onGenerate_clamps_count:
  assumes "JSON_parse (schemaText st) = Inr (JObj S)"
    and "list_all (\<lambda>p. is_text (snd p)) S"
  shows "\<exists>recs. result (fst (onGenerate JSON_parse sn fk st s)) = Some recs
    \<and> length recs =
        (case Number_js sn (count st) of
           NaN \<Rightarrow> 1
         | NegInf \<Rightarrow> 1
         | PosInf \<Rightarrow> 10000
         | Fin r \<Rightarrow> if r < 1 then 1 else if 10000 < r then 10000 else nat \<lfloor>r\<rfloor>)"
proof -
  obtain recs s' where g:
    "onGenerate JSON_parse sn fk st s = (st\<lparr>result := Some recs, error := NoError, working := False\<rparr>, s')"
    "length recs = ToLength (Math_max (Fin 1) (Math_min (Fin 10000) (or_else (Number_js sn (count st)) (Fin 1))))"
    using onGenerate_valid [of JSON_parse st S fk "\<lambda>r. True" sn s, OF assms] by blast
  have "length recs =
        (case Number_js sn (count st) of
           NaN \<Rightarrow> 1
         | NegInf \<Rightarrow> 1
         | PosInf \<Rightarrow> 10000
         | Fin r \<Rightarrow> if r < 1 then 1 else if 10000 < r then 10000 else nat \<lfloor>r\<rfloor>)"
    unfolding g(2) clamp_count
    by (cases "Number_js sn (count st)") (simp_all only: jsnum.case ToLength_clamped, simp_all)
  moreover have "result (fst (onGenerate JSON_parse sn fk st s)) = Some recs"
    by (simp add: g(1))
  ultimately show ?thesis by blast
qed

lemma demo_parse_m:
  "demo_JSON_parse (schemaText (demo_state\<lparr>count := c\<rparr>)) = Inr (JObj [(''m'', JStr ''string'')])"
  by (simp add: demo_JSON_parse_def demo_state_def m_schema_text_def double_quote_def)

text \<open>
  The instances of C3 of the specification: the counts 0, 999999 and the text \<^verbatim>\<open>abc\<close>,
  on the one-field schema.
\<close>

theorem onGenerate_clamps_count_witness:
  "(\<exists>recs. result (fst (onGenerate demo_JSON_parse demo_StringToNumber demo_faker
        (demo_state\<lparr>count := CountNumber (Fin 0)\<rparr>) 0)) = Some recs \<and> length recs = 1)
   \<and> (\<exists>recs. result (fst (onGenerate demo_JSON_parse demo_StringToNumber demo_faker
        (demo_state\<lparr>count := CountNumber (Fin 999999)\<rparr>) 0)) = Some recs \<and> length recs = 10000)
   \<and> (\<exists>recs. result (fst (onGenerate demo_JSON_parse demo_StringToNumber demo_faker
        (demo_state\<lparr>count := CountText ''abc''\<rparr>) 0)) = Some recs \<and> length recs = 1)"
proof -
  have v: "list_all (\<lambda>p. is_text (snd p)) [(''m'', JStr ''string'')]" by simp
  have a: "(case Number_js demo_StringToNumber (count (demo_state\<lparr>count := CountNumber (Fin 0)\<rparr>)) of
           NaN \<Rightarrow> 1 | NegInf \<Rightarrow> 1 | PosInf \<Rightarrow> 10000
         | Fin r \<Rightarrow> if r < 1 then 1 else if 10000 < r then 10000 else nat \<lfloor>r\<rfloor>) = (1::nat)"
    by simp
  have b: "(case Number_js demo_StringToNumber (count (demo_state\<lparr>count := CountNumber (Fin 999999)\<rparr>)) of
           NaN \<Rightarrow> 1 | NegInf \<Rightarrow> 1 | PosInf \<Rightarrow> 10000
         | Fin r \<Rightarrow> if r < 1 then 1 else if 10000 < r then 10000 else nat \<lfloor>r\<rfloor>) = (10000::nat)"
    by simp
  have c: "(case Number_js demo_StringToNumber (count (demo_state\<lparr>count := CountText ''abc''\<rparr>)) of
           NaN \<Rightarrow> 1 | NegInf \<Rightarrow> 1 | PosInf \<Rightarrow> 10000
         | Fin r \<Rightarrow> if r < 1 then 1 else if 10000 < r then 10000 else nat \<lfloor>r\<rfloor>) = (1::nat)"
    by (simp add: demo_StringToNumber_def)
  show ?thesis
    using onGenerate_clamps_count [where JSON_parse = demo_JSON_parse
        and st = "demo_state\<lparr>count := CountNumber (Fin 0)\<rparr>" and S = "[(''m'', JStr ''string'')]"
        and sn = demo_StringToNumber and fk = demo_faker and s = 0, OF demo_parse_m v]
      onGenerate_clamps_count [where JSON_parse = demo_JSON_parse
        and st = "demo_state\<lparr>count := CountNumber (Fin 999999)\<rparr>" and S = "[(''m'', JStr ''string'')]"
        and sn = demo_StringToNumber and fk = demo_faker and s = 0, OF demo_parse_m v]
      onGenerate_clamps_count [where JSON_parse = demo_JSON_parse
        and st = "demo_state\<lparr>count := CountText ''abc''\<rparr>" and S = "[(''m'', JStr ''string'')]"
        and sn = demo_StringToNumber and fk = demo_faker and s = 0, OF demo_parse_m v]
    unfolding a b c by (intro conjI)
qed

section \<open>The schema parser, the failures of the reducer and of the upload\<close>

lemma parseSchema_syntax_error:
  "JSON_parse txt = Inl e \<Longrightarrow> parseSchema JSON_parse txt = Inl e"
  by (simp add: parseSchema_def)

lemma parseSchema_not_object:
  "JSON_parse txt = Inr v \<Longrightarrow> v = JNull \<or> typeof v \<noteq> ''object''
     \<Longrightarrow> parseSchema JSON_parse txt = Inl (Error SchemaMustBeObject)"
  by (auto simp add: parseSchema_def)

text \<open>
  Claim C1, at the text \<^verbatim>\<open>[1,2,3]\<close>. The parser passes on the parser's \<^verbatim>\<open>SyntaxError\<close>
  and rejects \<^verbatim>\<open>null\<close> and every value whose \<^verbatim>\<open>typeof\<close> is not \<^verbatim>\<open>object\<close> (the two lemmas
  above), and returns an object unchanged. An array is truthy and its \<^verbatim>\<open>typeof\<close> is
  \<^verbatim>\<open>object\<close>, so the test of line 56 lets it through: with a \<^verbatim>\<open>JSON.parse\<close> that decodes
  \<^verbatim>\<open>[1,2,3]\<close> to the array of 1, 2 and 3, the parser returns that array and does not fail.
\<close>

theorem parseSchema_accepts_array:
  assumes "JSON_parse ''[1,2,3]'' = Inr (JArr [JNum (Fin 1), JNum (Fin 2), JNum (Fin 3)])"
  shows "parseSchema JSON_parse ''[1,2,3]'' = Inr (JArr [JNum (Fin 1), JNum (Fin 2), JNum (Fin 3)])"
  using assms by (simp add: parseSchema_def)

text \<open>The instance of C1 at the stand-in parser.\<close>

theorem parseSchema_accepts_array_witness:
  "demo_JSON_parse ''[1,2,3]'' = Inr (JArr [JNum (Fin 1), JNum (Fin 2), JNum (Fin 3)])
   \<and> parseSchema demo_JSON_parse ''[1,2,3]'' = Inr (JArr [JNum (Fin 1), JNum (Fin 2), JNum (Fin 3)])"
proof -
  have p: "demo_JSON_parse ''[1,2,3]'' = Inr (JArr [JNum (Fin 1), JNum (Fin 2), JNum (Fin 3)])"
    by (simp add: demo_JSON_parse_def)
  show ?thesis using p parseSchema_accepts_array [of demo_JSON_parse, OF p] by (intro conjI)
qed

text \<open>
  What follows from an array of numbers as schema: every count asks for at least one
  record, and building the first one calls \<^verbatim>\<open>startsWith\<close> on a number, so the generation
  ends in the engine's \<^verbatim>\<open>TypeError\<close>, shown as the error, and not in the parser's message.
\<close>

lemma count_at_least_one:
  "\<exists>k. ToLength (Math_max (Fin 1) (Math_min (Fin 10000) (or_else x (Fin 1)))) = Suc k"
proof -
  have "0 < ToLength (Math_max (Fin 1) (Math_min (Fin 10000) (or_else x (Fin 1))))"
    unfolding clamp_count
    by (cases x) (simp_all only: jsnum.case ToLength_clamped, simp_all)
  then show ?thesis by (simp add: gr0_conv_Suc)
qed

lemma buildRecord_array_of_numbers:
  "buildRecord fk (JArr (JNum x # xs)) s = (Inl TypeError, s)"
proof -
  have "[0..<Suc (length xs)] = 0 # [Suc 0..<Suc (length xs)]" by (simp add: upt_rec)
  then show ?thesis by (simp add: buildRecord_def genValue_def)
qed

lemma onGenerate_array_schema:
  assumes "JSON_parse (schemaText st) = Inr (JArr (JNum x # xs))"
  shows "result (fst (onGenerate JSON_parse sn fk st s)) = None
       \<and> error (fst (onGenerate JSON_parse sn fk st s)) = Message TypeError"
proof -
  obtain k where k: "ToLength (Math_max (Fin 1) (Math_min (Fin 10000)
      (or_else (Number_js sn (count st)) (Fin 1)))) = Suc k"
    using count_at_least_one by blast
  show ?thesis
    using assms by (simp add: onGenerate_def parseSchema_def k buildRecord_array_of_numbers)
qed

lemma openApiToSchema_no_paths:
  "\<not> truthy (opt_get doc ''paths'') \<Longrightarrow> openApiToSchema doc = Inl (Error PathsNotFound)"
  by (simp add: openApiToSchema_def)

lemma get_prop_opt: "\<not> nullish v \<Longrightarrow> get_prop v k = Inr (opt_get v k)"
  by (cases v) (auto simp: opt_get_def split: option.splits)

lemma openApiToSchema_schema_missing:
  assumes "truthy (opt_get doc ''paths'')"
    and "get_prop doc ''paths'' = Inr paths"
    and "Object_keys paths = Inr (p # ps)"
    and "get_prop paths p = Inr path_item"
    and "Object_keys path_item = Inr (m # ms)"
    and "get_prop path_item m = Inr operation"
    and "\<not> truthy (opt_get (opt_get (opt_get (opt_get (opt_get operation
            ''responses'') ''200'') ''content'') ''application/json'') ''schema'')"
  shows "openApiToSchema doc = Inl (Error JsonSchemaNotFound)"
  using assms by (simp add: openApiToSchema_def first_key_def key_text_def)

lemma openApiToSchema_unsupported:
  assumes "truthy (opt_get doc ''paths'')"
    and "get_prop doc ''paths'' = Inr paths"
    and "Object_keys paths = Inr (p # ps)"
    and "get_prop paths p = Inr path_item"
    and "Object_keys path_item = Inr (m # ms)"
    and "get_prop path_item m = Inr operation"
    and "opt_get (opt_get (opt_get (opt_get (opt_get operation
            ''responses'') ''200'') ''content'') ''application/json'') ''schema'' = schema"
    and "truthy schema"
    and "\<not> (opt_get schema ''type'' = JStr ''array''
            \<and> truthy (opt_get (opt_get schema ''items'') ''properties''))"
    and "\<not> (opt_get schema ''type'' = JStr ''object'' \<and> truthy (opt_get schema ''properties''))"
  shows "openApiToSchema doc = Inl (Error UnsupportedSchema)"
proof -
  have n: "\<not> nullish schema" using assms(8) by (cases schema) simp_all
  show ?thesis
    using assms
    by (auto simp add: openApiToSchema_def first_key_def key_text_def get_prop_opt [OF n])
qed

text \<open>
  Claim C6, at the document \<^verbatim>\<open>{"paths": {}}\<close>. By the three lemmas above, a document
  without a truthy \<^verbatim>\<open>paths\<close> fails with the message that names \<^verbatim>\<open>paths\<close>; a document that
  has a first path and a first method under it fails with the message of the missing
  \<^verbatim>\<open>application/json\<close> schema when the chain to the schema ends in nothing; and a schema
  of neither supported form fails with the message of the unsupported schema. The step
  between them is unguarded: when \<^verbatim>\<open>paths\<close> is an empty object, the first path is
  \<^verbatim>\<open>undefined\<close>, \<^verbatim>\<open>doc.paths[undefined]\<close> is \<^verbatim>\<open>undefined\<close> and \<^verbatim>\<open>Object.keys\<close> of it throws
  the engine's \<^verbatim>\<open>TypeError\<close> at line 137. The reducer fails, but with none of its own
  three messages.
\<close>

theorem openApiToSchema_empty_paths:
  "openApiToSchema (JObj [(''paths'', JObj [])]) = Inl TypeError"
  by (simp add: openApiToSchema_def opt_get_def Object_keys_def first_key_def key_text_def)

text \<open>The same happens when the first path holds \<^verbatim>\<open>null\<close>.\<close>

lemma openApiToSchema_null_path_item:
  "openApiToSchema (JObj [(''paths'', JObj [(''/pets'', JNull)])]) = Inl TypeError"
  by (simp add: openApiToSchema_def opt_get_def Object_keys_def first_key_def key_text_def)

text \<open>
  Claim C8. When the uploaded file parses to a document on which the reducer fails, with
  any error, the upload changes the error line only: it shows the error behind the label
  of a failed conversion, and the schema text is the one held before.
\<close>

theorem onOpenApiUpload_failure:
  assumes "(if is_yaml_name name then yaml_load body else JSON_parse body) = Inr doc"
    and "openApiToSchema doc = Inl e"
  shows "onOpenApiUpload yaml_load JSON_parse JSON_stringify (Some (name, body)) st
           = st\<lparr>error := OpenApiFailed e\<rparr>
    \<and> schemaText (onOpenApiUpload yaml_load JSON_parse JSON_stringify (Some (name, body)) st)
           = schemaText st"
  using assms by (simp add: onOpenApiUpload_def onload_def)

lemma is_yaml_name_examples:
  "\<not> is_yaml_name ''api.json''" "is_yaml_name ''api.yaml''" "is_yaml_name ''API.YML''"
  by (simp_all add: is_yaml_name_def endsWith_def toLowerCase_def lower_char_def)

text \<open>
  The instance of C8 at the file \<^verbatim>\<open>api.json\<close> holding \<^verbatim>\<open>{}\<close>, a document without
  \<^verbatim>\<open>paths\<close>.
\<close>

theorem onOpenApiUpload_failure_witness:
  "openApiToSchema (JObj []) = Inl (Error PathsNotFound)
   \<and> schemaText (onOpenApiUpload (\<lambda>t. Inl YAMLException) demo_JSON_parse (\<lambda>v. ''{}'')
        (Some (''api.json'', ''{}'')) demo_state) = schemaText demo_state
   \<and> error (onOpenApiUpload (\<lambda>t. Inl YAMLException) demo_JSON_parse (\<lambda>v. ''{}'')
        (Some (''api.json'', ''{}'')) demo_state) = OpenApiFailed (Error PathsNotFound)"
proof -
  have d: "(if is_yaml_name ''api.json'' then (\<lambda>t. Inl YAMLException) ''{}'' else demo_JSON_parse ''{}'')
             = Inr (JObj [])"
    by (simp add: is_yaml_name_examples demo_JSON_parse_def)
  have f: "openApiToSchema (JObj []) = Inl (Error PathsNotFound)"
    by (simp add: openApiToSchema_def opt_get_def)
  show ?thesis
    using f onOpenApiUpload_failure [where yaml_load = "\<lambda>t. Inl YAMLException"
        and JSON_parse = demo_JSON_parse and name = "''api.json''" and body = "''{}''"
        and doc = "JObj []" and e = "Error PathsNotFound" and st = demo_state
        and JSON_stringify = "\<lambda>v. ''{}''", OF d f]
    by simp
qed

section \<open>The mock-handler renderer\<close>

lemma method_lower_case:
  "toLowerCase (method_text m) = (case m of GET \<Rightarrow> ''get'' | POST \<Rightarrow> ''post'' | PUT \<Rightarrow> ''put'' | DELETE \<Rightarrow> ''delete'')"
  by (cases m) (simp_all add: toLowerCase_def lower_char_def)

lemma mswText_parts:
  assumes "result st = Some r"
  shows "mswText js st =
      (''import { rest } from '' @ quote @ ''msw'' @ quote @ newline @ newline @
       ''export const handlers = ['' @ newline @ ''  '')
      @ (''rest.'' @ toLowerCase (method_text (http_method st)) @ ''('' @ quote
          @ (if endpoint st = [] then ''/'' else endpoint st) @ quote @ '', (req, res, ctx) => {'')
      @ (newline @ ''    '')
      @ (''return res(ctx.json('' @ js (JArr r) @ ''))'')
      @ (newline @ ''  })'' @ newline @ '']'')"
  using assms by (simp add: mswText_def Let_def)

lemma buildRecord_m:
  "buildRecord fk (JObj [(''m'', JStr ''string'')]) s
     = (Inr (JObj [(''m'', JStr (fst (person_fullName fk s)))]), snd (person_fullName fk s))"
  by (simp add: buildRecord_def genValue_def startsWith_def obj_set_def Let_def split_def)

lemma onGenerate_m:
  assumes "JSON_parse (schemaText st) = Inr (JObj [(''m'', JStr ''string'')])"
    and "count st = CountNumber (Fin 3)"
  shows "\<exists>a b c. result (fst (onGenerate JSON_parse sn fk st s))
           = Some [JObj [(''m'', JStr a)], JObj [(''m'', JStr b)], JObj [(''m'', JStr c)]]"
proof -
  have n: "ToLength (Math_max (Fin 1) (Math_min (Fin 10000) (or_else (Fin 3) (Fin 1)))) = Suc (Suc (Suc 0))"
    by (simp add: or_else_def)
  show ?thesis
    using assms
    by (simp add: onGenerate_def parseSchema_def n buildRecord_m)
qed

lemma mswText_contains:
  assumes "result st = Some r"
  shows "sublist (''rest.'' @ toLowerCase (method_text (http_method st)) @ ''('' @ quote
            @ (if endpoint st = [] then ''/'' else endpoint st) @ quote @ '', (req, res, ctx) => {'')
           (mswText js st)
       \<and> sublist (''return res(ctx.json('' @ js (JArr r) @ ''))'') (mswText js st)"
proof
  show "sublist (''rest.'' @ toLowerCase (method_text (http_method st)) @ ''('' @ quote
            @ (if endpoint st = [] then ''/'' else endpoint st) @ quote @ '', (req, res, ctx) => {'')
           (mswText js st)"
    unfolding mswText_parts [OF assms] by (rule sublist_appendI)
next
  have "sublist (''return res(ctx.json('' @ js (JArr r) @ ''))'')
          (((''import { rest } from '' @ quote @ ''msw'' @ quote @ newline @ newline @
              ''export const handlers = ['' @ newline @ ''  '')
            @ (''rest.'' @ toLowerCase (method_text (http_method st)) @ ''('' @ quote
                @ (if endpoint st = [] then ''/'' else endpoint st) @ quote @ '', (req, res, ctx) => {'')
            @ (newline @ ''    ''))
           @ (''return res(ctx.json('' @ js (JArr r) @ ''))'')
           @ (newline @ ''  })'' @ newline @ '']''))"
    by (rule sublist_appendI)
  then show "sublist (''return res(ctx.json('' @ js (JArr r) @ ''))'') (mswText js st)"
    unfolding mswText_parts [OF assms] by (simp only: append_assoc)
qed

lemma onGenerate_frame:
  "endpoint (fst (onGenerate JSON_parse sn fk st s)) = endpoint st
   \<and> http_method (fst (onGenerate JSON_parse sn fk st s)) = http_method st
   \<and> count (fst (onGenerate JSON_parse sn fk st s)) = count st
   \<and> schemaText (fst (onGenerate JSON_parse sn fk st s)) = schemaText st
   \<and> working (fst (onGenerate JSON_parse sn fk st s)) = False"
  by (simp add: onGenerate_def Let_def split: sum.splits prod.splits)

text \<open>
  Claim C9. The renderer is a total function to text. With no record sequence it returns
  the placeholder comment. With a record sequence, its text contains the registration
  \<^verbatim>\<open>rest.<m>('<ep>', (req, res, ctx) => {\<close>, where \<^verbatim>\<open><m>\<close> is the method in lower case (one
  of \<^verbatim>\<open>get\<close>, \<^verbatim>\<open>post\<close>, \<^verbatim>\<open>put\<close>, \<^verbatim>\<open>delete\<close>) and \<^verbatim>\<open><ep>\<close> is the endpoint, or \<^verbatim>\<open>/\<close> when
  the endpoint is empty, and contains \<^verbatim>\<open>return res(ctx.json(<data>))\<close>, where \<^verbatim>\<open><data>\<close> is
  the serialized sequence. After a generation from the schema with the single field
  \<^verbatim>\<open>m\<close> of tag \<^verbatim>\<open>string\<close> and the count 3, the sequence is three objects, each with the one
  key \<^verbatim>\<open>m\<close> holding text, and the renderer's text contains the registration and that
  sequence serialized.
\<close>

theorem mswText_renders:
  "(result st = None \<longrightarrow> mswText js st = placeholder)
   \<and> (\<forall>r. result st = Some r \<longrightarrow>
          sublist (''rest.'' @ toLowerCase (method_text (http_method st)) @ ''('' @ quote
            @ (if endpoint st = [] then ''/'' else endpoint st) @ quote @ '', (req, res, ctx) => {'')
            (mswText js st)
        \<and> sublist (''return res(ctx.json('' @ js (JArr r) @ ''))'') (mswText js st))
   \<and> toLowerCase (method_text (http_method st)) \<in> {''get'', ''post'', ''put'', ''delete''}
   \<and> (JSON_parse (schemaText st) = Inr (JObj [(''m'', JStr ''string'')])
        \<and> count st = CountNumber (Fin 3) \<longrightarrow>
        (\<exists>a b c.
            result (fst (onGenerate JSON_parse sn fk st s))
              = Some [JObj [(''m'', JStr a)], JObj [(''m'', JStr b)], JObj [(''m'', JStr c)]]
          \<and> sublist (''rest.'' @ toLowerCase (method_text (http_method st)) @ ''('' @ quote
                @ (if endpoint st = [] then ''/'' else endpoint st) @ quote @ '', (req, res, ctx) => {'')
              (mswText js (fst (onGenerate JSON_parse sn fk st s)))
          \<and> sublist (''return res(ctx.json(''
                @ js (JArr [JObj [(''m'', JStr a)], JObj [(''m'', JStr b)], JObj [(''m'', JStr c)]])
                @ ''))'')
              (mswText js (fst (onGenerate JSON_parse sn fk st s)))))"
proof (intro conjI impI allI)
  assume "result st = None"
  then show "mswText js st = placeholder" by (simp add: mswText_def)
next
  fix r assume "result st = Some r"
  then show "sublist (''rest.'' @ toLowerCase (method_text (http_method st)) @ ''('' @ quote
            @ (if endpoint st = [] then ''/'' else endpoint st) @ quote @ '', (req, res, ctx) => {'')
            (mswText js st)"
    using mswText_contains [of st r js] by blast
next
  fix r assume "result st = Some r"
  then show "sublist (''return res(ctx.json('' @ js (JArr r) @ ''))'') (mswText js st)"
    using mswText_contains [of st r js] by blast
next
  show "toLowerCase (method_text (http_method st)) \<in> {''get'', ''post'', ''put'', ''delete''}"
    by (simp add: method_lower_case split: HttpMethod.split)
next
  assume a: "JSON_parse (schemaText st) = Inr (JObj [(''m'', JStr ''string'')])
        \<and> count st = CountNumber (Fin 3)"
  define st' where "st' = fst (onGenerate JSON_parse sn fk st s)"
  obtain a b c where r: "result st'
      = Some [JObj [(''m'', JStr a)], JObj [(''m'', JStr b)], JObj [(''m'', JStr c)]]"
    using onGenerate_m [of JSON_parse st sn fk s] a unfolding st'_def by blast
  have f: "endpoint st' = endpoint st" "http_method st' = http_method st"
    using onGenerate_frame [of JSON_parse sn fk st s] by (simp_all add: st'_def)
  show "\<exists>a b c.
            result (fst (onGenerate JSON_parse sn fk st s))
              = Some [JObj [(''m'', JStr a)], JObj [(''m'', JStr b)], JObj [(''m'', JStr c)]]
          \<and> sublist (''rest.'' @ toLowerCase (method_text (http_method st)) @ ''('' @ quote
                @ (if endpoint st = [] then ''/'' else endpoint st) @ quote @ '', (req, res, ctx) => {'')
              (mswText js (fst (onGenerate JSON_parse sn fk st s)))
          \<and> sublist (''return res(ctx.json(''
                @ js (JArr [JObj [(''m'', JStr a)], JObj [(''m'', JStr b)], JObj [(''m'', JStr c)]])
                @ ''))'')
              (mswText js (fst (onGenerate JSON_parse sn fk st s)))"
    using r mswText_contains [OF r, of js, unfolded f] unfolding st'_def by blast
qed

text \<open>
  The instance of C9 at the initial state (no sequence yet) and after a generation with
  the count 3, for the method \<^verbatim>\<open>GET\<close> and the endpoint \<^verbatim>\<open>/users\<close>.
\<close>

theorem mswText_renders_witness:
  "mswText (\<lambda>v. ''[]'') demo_state = placeholder
   \<and> (\<exists>a b c.
        result (fst (onGenerate demo_JSON_parse demo_StringToNumber demo_faker
                  (demo_state\<lparr>count := CountNumber (Fin 3)\<rparr>) 0))
          = Some [JObj [(''m'', JStr a)], JObj [(''m'', JStr b)], JObj [(''m'', JStr c)]]
      \<and> sublist (''rest.get('' @ quote @ ''/users'' @ quote @ '', (req, res, ctx) => {'')
          (mswText (\<lambda>v. ''[]'') (fst (onGenerate demo_JSON_parse demo_StringToNumber demo_faker
                  (demo_state\<lparr>count := CountNumber (Fin 3)\<rparr>) 0)))
      \<and> sublist (''return res(ctx.json(''
            @ (\<lambda>v. ''[]'') (JArr [JObj [(''m'', JStr a)], JObj [(''m'', JStr b)], JObj [(''m'', JStr c)]])
            @ ''))'')
          (mswText (\<lambda>v. ''[]'') (fst (onGenerate demo_JSON_parse demo_StringToNumber demo_faker
                  (demo_state\<lparr>count := CountNumber (Fin 3)\<rparr>) 0))))"
proof
  have n: "result demo_state = None" by (simp add: demo_state_def)
  show "mswText (\<lambda>v. ''[]'') demo_state = placeholder"
    using mswText_renders [where st = demo_state and js = "\<lambda>v. ''[]''", THEN conjunct1] n
    by (rule mp)
next
  have h: "demo_JSON_parse (schemaText (demo_state\<lparr>count := CountNumber (Fin 3)\<rparr>))
             = Inr (JObj [(''m'', JStr ''string'')])
           \<and> count (demo_state\<lparr>count := CountNumber (Fin 3)\<rparr>) = CountNumber (Fin 3)"
    using demo_parse_m [of "CountNumber (Fin 3)"] by simp
  have e: "''rest.'' @ toLowerCase (method_text (http_method (demo_state\<lparr>count := CountNumber (Fin 3)\<rparr>)))
             @ ''('' @ quote
             @ (if endpoint (demo_state\<lparr>count := CountNumber (Fin 3)\<rparr>) = [] then ''/''
                else endpoint (demo_state\<lparr>count := CountNumber (Fin 3)\<rparr>))
             @ quote @ '', (req, res, ctx) => {''
           = ''rest.get('' @ quote @ ''/users'' @ quote @ '', (req, res, ctx) => {''"
    by (simp add: demo_state_def toLowerCase_def lower_char_def)
  show "\<exists>a b c.
        result (fst (onGenerate demo_JSON_parse demo_StringToNumber demo_faker
                  (demo_state\<lparr>count := CountNumber (Fin 3)\<rparr>) 0))
          = Some [JObj [(''m'', JStr a)], JObj [(''m'', JStr b)], JObj [(''m'', JStr c)]]
      \<and> sublist (''rest.get('' @ quote @ ''/users'' @ quote @ '', (req, res, ctx) => {'')
          (mswText (\<lambda>v. ''[]'') (fst (onGenerate demo_JSON_parse demo_StringToNumber demo_faker
                  (demo_state\<lparr>count := CountNumber (Fin 3)\<rparr>) 0)))
      \<and> sublist (''return res(ctx.json(''
            @ (\<lambda>v. ''[]'') (JArr [JObj [(''m'', JStr a)], JObj [(''m'', JStr b)], JObj [(''m'', JStr c)]])
            @ ''))'')
          (mswText (\<lambda>v. ''[]'') (fst (onGenerate demo_JSON_parse demo_StringToNumber demo_faker
                  (demo_state\<lparr>count := CountNumber (Fin 3)\<rparr>) 0)))"
    using mswText_renders [where st = "demo_state\<lparr>count := CountNumber (Fin 3)\<rparr>"
        and js = "\<lambda>v. ''[]''" and JSON_parse = demo_JSON_parse and sn = demo_StringToNumber
        and fk = demo_faker and s = 0,
        THEN conjunct2, THEN conjunct2, THEN conjunct2, THEN mp, OF h]
    unfolding e .
qed

section \<open>The fields of the generated records\<close>

lemma js_ordered_tail: "js_ordered (a # ks) \<Longrightarrow> js_ordered ks"
  by (cases ks) simp_all

lemma js_ordered_prefix: "js_ordered (xs @ ys) \<Longrightarrow> js_ordered xs"
proof (induction xs rule: js_ordered.induct)
  case 1
  then show ?case by simp
next
  case (2 k)
  then show ?case by simp
next
  case (3 a b ks)
  then show ?case by simp
qed

lemma js_ordered_last_index:
  "js_ordered (a # ks @ [k]) \<Longrightarrow> array_index k = Some i
     \<Longrightarrow> \<exists>j. array_index a = Some j \<and> j < i"
proof (induction ks arbitrary: a)
  case Nil
  then show ?case by (simp add: ordered_pair_def split: option.splits)
next
  case (Cons b ks)
  from Cons.prems have "js_ordered (b # ks @ [k])" by simp
  then obtain j where j: "array_index b = Some j" "j < i"
    using Cons.IH [of b] Cons.prems(2) by blast
  from Cons.prems have "ordered_pair a b" by simp
  then obtain h where "array_index a = Some h" "h < j"
    using j by (auto simp: ordered_pair_def split: option.splits)
  then show ?case using j by auto
qed

lemma insert_key_last:
  "js_ordered (map fst ps @ [k]) \<Longrightarrow> insert_key ps k v = ps @ [(k, v)]"
proof (induction ps)
  case Nil
  then show ?case by simp
next
  case (Cons p ps)
  obtain k' v' where p: "p = (k', v')" by (cases p)
  from Cons.prems p have o: "js_ordered (k' # map fst ps @ [k])" by simp
  then have "js_ordered (map fst ps @ [k])" by (rule js_ordered_tail)
  then have ih: "insert_key ps k v = ps @ [(k, v)]" by (rule Cons.IH)
  show ?case
  proof (cases "array_index k")
    case None
    then show ?thesis using p ih by simp
  next
    case (Some i)
    then obtain j where "array_index k' = Some j" "j < i"
      using js_ordered_last_index [OF o] by blast
    then show ?thesis using p ih Some by simp
  qed
qed

lemma buildRecord_loop_fields:
  assumes "distinct (map fst rec @ map fst es)"
    and "js_ordered (map fst rec @ map fst es)"
    and "''__proto__'' \<notin> set (map fst es)"
    and "list_all (\<lambda>p. is_text (snd p)) es"
  shows "\<exists>r s'. buildRecord_loop fk es rec s = (Inr r, s') \<and> map fst r = map fst rec @ map fst es"
  using assms
proof (induction es arbitrary: rec s)
  case Nil
  then show ?case by simp
next
  case (Cons e es)
  obtain k t where e: "e = (k, t)" by (cases e)
  from Cons.prems(4) e have "is_text t" by simp
  then obtain v s1 where g: "genValue fk t s = (Inr v, s1)"
    using genValue_text [of t fk s] by blast
  have fresh: "k \<notin> set (map fst rec)" using Cons.prems(1) e by auto
  have "js_ordered ((map fst rec @ [k]) @ map fst es)" using Cons.prems(2) e by simp
  then have "js_ordered (map fst rec @ [k])" by (rule js_ordered_prefix)
  then have ins: "insert_key rec k v = rec @ [(k, v)]" by (rule insert_key_last)
  have k: "k \<noteq> ''__proto__''" using Cons.prems(3) e by auto
  have set: "obj_set rec k v = rec @ [(k, v)]" using k fresh ins by (simp add: obj_set_def)
  have "\<exists>r s'. buildRecord_loop fk es (rec @ [(k, v)]) s1 = (Inr r, s')
          \<and> map fst r = map fst (rec @ [(k, v)]) @ map fst es"
    using Cons.prems e by (intro Cons.IH) simp_all
  then show ?case using e g set by simp
qed

lemma buildRecord_fields:
  assumes "flat_schema S" and "''__proto__'' \<notin> set (map fst S)"
  shows "\<exists>r s'. buildRecord fk (JObj S) s = (Inr (JObj r), s') \<and> map fst r = map fst S"
proof -
  obtain r s' where "buildRecord_loop fk S [] s = (Inr r, s')" "map fst r = map fst S"
    using buildRecord_loop_fields [of "[]" S fk s] assms by (auto simp: flat_schema_def)
  then show ?thesis by (simp add: buildRecord_def)
qed

lemma onGenerate_fields:
  assumes "JSON_parse (schemaText st) = Inr (JObj S)"
    and "flat_schema S"
    and "''__proto__'' \<notin> set (map fst S)"
    and "count st = CountNumber (Fin (of_nat n))"
    and "1 \<le> n" and "n \<le> 10000"
  shows "\<exists>recs. result (fst (onGenerate JSON_parse sn fk st s)) = Some recs
    \<and> length recs = n
    \<and> list_all (\<lambda>r. \<exists>fields. r = JObj fields \<and> map fst fields = map fst S) recs"
proof -
  have v: "list_all (\<lambda>p. is_text (snd p)) S" using assms(2) by (simp add: flat_schema_def)
  have P: "\<exists>fields. r = JObj fields \<and> map fst fields = map fst S"
    if "buildRecord fk (JObj S) s0 = (Inr r, s1)" for s0 r s1
    using buildRecord_fields [OF assms(2,3), of fk s0] that by auto
  have "\<exists>recs s'.
      onGenerate JSON_parse sn fk st s = (st\<lparr>result := Some recs, error := NoError, working := False\<rparr>, s')
    \<and> length recs = ToLength (Math_max (Fin 1) (Math_min (Fin 10000) (or_else (Number_js sn (count st)) (Fin 1))))
    \<and> list_all (\<lambda>r. \<exists>fields. r = JObj fields \<and> map fst fields = map fst S) recs"
    by (rule onGenerate_valid [of JSON_parse st S fk _ sn s, OF assms(1) v]) (erule P)
  then obtain recs s' where g:
    "onGenerate JSON_parse sn fk st s = (st\<lparr>result := Some recs, error := NoError, working := False\<rparr>, s')"
    "length recs = ToLength (Math_max (Fin 1) (Math_min (Fin 10000) (or_else (Number_js sn (count st)) (Fin 1))))"
    "list_all (\<lambda>r. \<exists>fields. r = JObj fields \<and> map fst fields = map fst S) recs"
    by blast
  have "length recs = n"
    unfolding g(2) assms(4) Number_js.simps clamp_count jsnum.case ToLength_clamped
    using assms(5,6) by simp
  moreover have "result (fst (onGenerate JSON_parse sn fk st s)) = Some recs" by (simp add: g(1))
  ultimately show ?thesis using g(3) by blast
qed

lemma buildRecord_proto:
  "buildRecord fk (JObj [(''__proto__'', JStr ''uuid'')]) s = (Inr (JObj []), snd (string_uuid fk s))"
  by (simp add: buildRecord_def genValue_def startsWith_def obj_set_def Let_def split_def)

text \<open>
  Claim C2, at the schema \<^verbatim>\<open>{"__proto__": "uuid"}\<close> and the count 1. By the lemma above,
  for a flat schema none of whose fields is named \<^verbatim>\<open>__proto__\<close> and a whole count from 1 to
  10000, generation returns exactly that many records, each with the fields of the schema
  in the schema's order. A field named \<^verbatim>\<open>__proto__\<close> is lost: the assignment
  \<^verbatim>\<open>rec[k] = genValue(t)\<close> of line 82 runs the setter that a plain object inherits, which
  ignores a string, so the one record generated has no field at all.
\<close>

theorem onGenerate_drops_proto_field:
  assumes "JSON_parse (schemaText st) = Inr (JObj [(''__proto__'', JStr ''uuid'')])"
    and "count st = CountNumber (Fin 1)"
  shows "result (fst (onGenerate JSON_parse sn fk st s)) = Some [JObj []]"
proof -
  have n: "ToLength (Math_max (Fin 1) (Math_min (Fin 10000) (or_else (Fin 1) (Fin 1)))) = Suc 0"
    by (simp add: or_else_def)
  show ?thesis
    using assms by (simp add: onGenerate_def parseSchema_def n buildRecord_proto)
qed

text \<open>The instance of C2 at the stand-in parser and the demonstration faker.\<close>

theorem onGenerate_drops_proto_field_witness:
  "demo_JSON_parse proto_schema_text = Inr (JObj [(''__proto__'', JStr ''uuid'')])
   \<and> result (fst (onGenerate demo_JSON_parse demo_StringToNumber demo_faker
         (demo_state\<lparr>schemaText := proto_schema_text, count := CountNumber (Fin 1)\<rparr>) 0))
       = Some [JObj []]"
proof -
  have p: "demo_JSON_parse proto_schema_text = Inr (JObj [(''__proto__'', JStr ''uuid'')])"
    by (simp add: demo_JSON_parse_def proto_schema_text_def m_schema_text_def double_quote_def)
  have q: "demo_JSON_parse (schemaText (demo_state\<lparr>schemaText := proto_schema_text, count := CountNumber (Fin 1)\<rparr>))
             = Inr (JObj [(''__proto__'', JStr ''uuid'')])"
    using p by simp
  have c: "count (demo_state\<lparr>schemaText := proto_schema_text, count := CountNumber (Fin 1)\<rparr>)
             = CountNumber (Fin 1)"
    by simp
  show ?thesis
    using p onGenerate_drops_proto_field [where JSON_parse = demo_JSON_parse
        and st = "demo_state\<lparr>schemaText := proto_schema_text, count := CountNumber (Fin 1)\<rparr>"
        and sn = demo_StringToNumber and fk = demo_faker and s = 0, OF q c]
    by (intro conjI)
qed

section \<open>The tags of the reducer\<close>

lemma set_insert_key: "set (insert_key ps k v) = insert (k, v) (set ps)"
  by (induction ps) (auto split: option.splits if_splits)

lemma set_replace_key: "set (replace_key ps k v) \<subseteq> insert (k, v) (set ps)"
  by (induction ps) (auto split: if_splits)

lemma obj_set_values:
  assumes "list_all (\<lambda>p. Q (snd p)) ps" and "Q v"
  shows "list_all (\<lambda>p. Q (snd p)) (obj_set ps k v)"
proof -
  have "set (obj_set ps k v) \<subseteq> insert (k, v) (set ps)"
    using set_replace_key [of ps k v] by (auto simp: obj_set_def set_insert_key)
  then show ?thesis using assms by (auto simp: list_all_iff)
qed

lemma mapSchemaType_known: "known_tag (JStr (mapSchemaType t f))"
  by (simp add: known_tag_def mapSchemaType_def)

lemma convertProps_loop_known:
  "list_all (\<lambda>p. known_tag (snd p)) r \<Longrightarrow> convertProps_loop es r = Inr r'
     \<Longrightarrow> list_all (\<lambda>p. known_tag (snd p)) r'"
proof (induction es arbitrary: r)
  case Nil
  then show ?case by simp
next
  case (Cons e es)
  obtain k v where e: "e = (k, v)" by (cases e)
  from Cons.prems(2) e obtain t f where tf: "get_prop v ''type'' = Inr t" "get_prop v ''format'' = Inr f"
    and rest: "convertProps_loop es (obj_set r k (JStr (mapSchemaType t f))) = Inr r'"
    by (auto split: sum.splits)
  have "list_all (\<lambda>p. known_tag (snd p)) (obj_set r k (JStr (mapSchemaType t f)))"
    using Cons.prems(1) mapSchemaType_known by (rule obj_set_values)
  then show ?case using rest by (rule Cons.IH)
qed

lemma convertProps_known:
  "convertProps props = Inr sch \<Longrightarrow> \<exists>r. sch = JObj r \<and> list_all (\<lambda>p. known_tag (snd p)) r"
  using convertProps_loop_known [of "[]"]
  by (auto simp: convertProps_def split: sum.splits)

lemma openApiToSchema_known:
  assumes "openApiToSchema doc = Inr sch"
  shows "\<exists>r. sch = JObj r \<and> list_all (\<lambda>p. known_tag (snd p)) r"
proof -
  from assms obtain props where "convertProps props = Inr sch"
    unfolding openApiToSchema_def Let_def
    by (simp split: if_splits sum.splits)
  then show ?thesis by (rule convertProps_known)
qed

lemma genValue_uuid:
  "genValue fk (JStr ''uuid'') s = (Inr (JStr (fst (string_uuid fk s))), snd (string_uuid fk s))"
  by (simp add: genValue_def startsWith_def Let_def split_def)

lemma genValue_string:
  "genValue fk (JStr ''string'') s
     = (Inr (JStr (fst (person_fullName fk s))), snd (person_fullName fk s))"
  by (simp add: genValue_def startsWith_def Let_def split_def)

lemma genValue_email:
  "genValue fk (JStr ''email'') s
     = (Inr (JStr (toLowerCase (fst (internet_email fk s)))), snd (internet_email fk s))"
  by (simp add: genValue_def startsWith_def Let_def split_def)

lemma genValue_known_value:
  assumes "known_tag t"
  shows "\<exists>v s'. genValue fk t s = (Inr v, s') \<and> v \<noteq> JNull
           \<and> (is_text v \<or> is_number v) \<and> synthesized fk t s (v, s')"
proof -
  from assms have "t = JStr ''uuid'' \<or> t = JStr ''email'' \<or> t = JStr ''date:YYYY-MM-DD''
      \<or> t = JStr ''string'' \<or> t = JStr ''number''"
    by (simp add: known_tag_def)
  then show ?thesis
  proof (elim disjE)
    assume t: "t = JStr ''uuid''"
    show ?thesis unfolding t
      by (intro exI conjI, rule genValue_uuid) (simp_all add: synthesized_def)
  next
    assume t: "t = JStr ''email''"
    show ?thesis unfolding t
      by (intro exI conjI, rule genValue_email) (simp_all add: synthesized_def)
  next
    assume t: "t = JStr ''date:YYYY-MM-DD''"
    show ?thesis unfolding t
      by (intro exI conjI, rule genValue_date_dash) (simp_all add: synthesized_def dash_date_def)
  next
    assume t: "t = JStr ''string''"
    show ?thesis unfolding t
      by (intro exI conjI, rule genValue_string) (simp_all add: synthesized_def)
  next
    assume t: "t = JStr ''number''"
    show ?thesis unfolding t
      by (intro exI conjI, rule genValue_number) (simp_all add: synthesized_def)
  qed
qed

lemma buildRecord_loop_known_values:
  "list_all (\<lambda>p. known_tag (snd p)) es
     \<Longrightarrow> list_all (\<lambda>p. snd p \<noteq> JNull \<and> (is_text (snd p) \<or> is_number (snd p))
            \<and> (\<exists>t s1 s2. known_tag t \<and> synthesized fk t s1 (snd p, s2))) rec
     \<Longrightarrow> \<exists>r s'. buildRecord_loop fk es rec s = (Inr r, s')
           \<and> list_all (\<lambda>p. snd p \<noteq> JNull \<and> (is_text (snd p) \<or> is_number (snd p))
                 \<and> (\<exists>t s1 s2. known_tag t \<and> synthesized fk t s1 (snd p, s2))) r"
proof (induction es arbitrary: rec s)
  case Nil
  then show ?case by simp
next
  case (Cons e es)
  obtain k t where e: "e = (k, t)" by (cases e)
  from Cons.prems(1) e have kt: "known_tag t" by simp
  then obtain v s1 where g: "genValue fk t s = (Inr v, s1)" "v \<noteq> JNull"
    "is_text v \<or> is_number v" "synthesized fk t s (v, s1)"
    using genValue_known_value [of t fk s] by blast
  have q: "v \<noteq> JNull \<and> (is_text v \<or> is_number v)
      \<and> (\<exists>t s1 s2. known_tag t \<and> synthesized fk t s1 (v, s2))"
    using g kt by blast
  have "list_all (\<lambda>p. snd p \<noteq> JNull \<and> (is_text (snd p) \<or> is_number (snd p))
            \<and> (\<exists>t s1 s2. known_tag t \<and> synthesized fk t s1 (snd p, s2))) (obj_set rec k v)"
    using Cons.prems(2) q
    by (rule obj_set_values [where Q = "\<lambda>v. v \<noteq> JNull \<and> (is_text v \<or> is_number v)
            \<and> (\<exists>t s1 s2. known_tag t \<and> synthesized fk t s1 (v, s2))"])
  moreover have "list_all (\<lambda>p. known_tag (snd p)) es" using Cons.prems(1) by simp
  ultimately have "\<exists>r s'. buildRecord_loop fk es (obj_set rec k v) s1 = (Inr r, s')
      \<and> list_all (\<lambda>p. snd p \<noteq> JNull \<and> (is_text (snd p) \<or> is_number (snd p))
                 \<and> (\<exists>t s1 s2. known_tag t \<and> synthesized fk t s1 (snd p, s2))) r"
    by (intro Cons.IH)
  then show ?case using e g(1) by simp
qed

text \<open>
  Claim C10. Whenever the reducer returns a schema, that schema is an object each of whose
  fields holds one of the five tags \<^verbatim>\<open>uuid\<close>, \<^verbatim>\<open>email\<close>, \<^verbatim>\<open>date:YYYY-MM-DD\<close>, \<^verbatim>\<open>string\<close>,
  \<^verbatim>\<open>number\<close>. On the tag of every field, from any random state, the value synthesizer
  returns without an exception exactly the value synthesized for that tag (the draw of
  faker for it, as text or as a number) and the state left by that draw; the value is not
  \<^verbatim>\<open>null\<close>. A record built from the schema is built without an exception, and each of its
  values is text or a number, not \<^verbatim>\<open>null\<close>, and the value synthesized for one of the five
  tags from some random state.
\<close>

theorem reducer_tags_synthesize:
  assumes "openApiToSchema doc = Inr sch"
  shows "\<exists>fields.
      sch = JObj fields
    \<and> list_all (\<lambda>p. known_tag (snd p)) fields
    \<and> list_all (\<lambda>p. \<exists>v s'. genValue fk (snd p) s0 = (Inr v, s') \<and> v \<noteq> JNull
            \<and> (is_text v \<or> is_number v) \<and> synthesized fk (snd p) s0 (v, s')) fields
    \<and> (\<exists>r s'. buildRecord fk sch s = (Inr (JObj r), s')
          \<and> list_all (\<lambda>p. snd p \<noteq> JNull \<and> (is_text (snd p) \<or> is_number (snd p))
                \<and> (\<exists>t s1 s2. known_tag t \<and> synthesized fk t s1 (snd p, s2))) r)"
proof -
  obtain fields where f: "sch = JObj fields" "list_all (\<lambda>p. known_tag (snd p)) fields"
    using openApiToSchema_known [OF assms] by blast
  have "list_all (\<lambda>p. \<exists>v s'. genValue fk (snd p) s0 = (Inr v, s') \<and> v \<noteq> JNull
            \<and> (is_text v \<or> is_number v) \<and> synthesized fk (snd p) s0 (v, s')) fields"
    unfolding list_all_iff
  proof
    fix p assume "p \<in> set fields"
    then have "known_tag (snd p)" using f(2) by (simp add: list_all_iff)
    then show "\<exists>v s'. genValue fk (snd p) s0 = (Inr v, s') \<and> v \<noteq> JNull
            \<and> (is_text v \<or> is_number v) \<and> synthesized fk (snd p) s0 (v, s')"
      by (rule genValue_known_value)
  qed
  moreover have "\<exists>r s'. buildRecord_loop fk fields [] s = (Inr r, s')
      \<and> list_all (\<lambda>p. snd p \<noteq> JNull \<and> (is_text (snd p) \<or> is_number (snd p))
                 \<and> (\<exists>t s1 s2. known_tag t \<and> synthesized fk t s1 (snd p, s2))) r"
    by (rule buildRecord_loop_known_values [OF f(2)]) simp
  then have "\<exists>r s'. buildRecord fk sch s = (Inr (JObj r), s')
          \<and> list_all (\<lambda>p. snd p \<noteq> JNull \<and> (is_text (snd p) \<or> is_number (snd p))
                \<and> (\<exists>t s1 s2. known_tag t \<and> synthesized fk t s1 (snd p, s2))) r"
    by (auto simp add: buildRecord_def f(1))
  ultimately show ?thesis using f by blast
qed

lemma openApiToSchema_users:
  "openApiToSchema users_document
     = Inr (JObj [(''email'', JStr ''email''), (''joined_at'', JStr ''date:YYYY-MM-DD''),
                  (''visits'', JStr ''number'')])"
  by (simp add: users_document_def openApiToSchema_def opt_get_def Object_keys_def first_key_def
      key_text_def convertProps_def mapSchemaType_def obj_set_def array_index_def is_digit_def
      digit_val_def)

text \<open>The instance of C10 at the second document and the demonstration faker.\<close>

theorem reducer_tags_synthesize_witness:
  "\<exists>fields.
      JObj [(''email'', JStr ''email''), (''joined_at'', JStr ''date:YYYY-MM-DD''),
            (''visits'', JStr ''number'')] = JObj fields
    \<and> list_all (\<lambda>p. known_tag (snd p)) fields
    \<and> list_all (\<lambda>p. \<exists>v s'. genValue demo_faker (snd p) 0 = (Inr v, s') \<and> v \<noteq> JNull
            \<and> (is_text v \<or> is_number v) \<and> synthesized demo_faker (snd p) 0 (v, s')) fields
    \<and> (\<exists>r s'. buildRecord demo_faker
                  (JObj [(''email'', JStr ''email''), (''joined_at'', JStr ''date:YYYY-MM-DD''),
                         (''visits'', JStr ''number'')]) 0 = (Inr (JObj r), s')
          \<and> list_all (\<lambda>p. snd p \<noteq> JNull \<and> (is_text (snd p) \<or> is_number (snd p))
                \<and> (\<exists>t s1 s2. known_tag t \<and> synthesized demo_faker t s1 (snd p, s2))) r)"
  by (rule reducer_tags_synthesize [OF openApiToSchema_users])

text \<open>
  The record of that instance, evaluated: the address in lower case, the date with
  hyphens, the number.
\<close>

lemma buildRecord_users:
  "buildRecord demo_faker
     (JObj [(''email'', JStr ''email''), (''joined_at'', JStr ''date:YYYY-MM-DD''),
            (''visits'', JStr ''number'')]) 0
   = (Inr (JObj [(''email'', JStr ''user0@example.org''), (''joined_at'', JStr ''2019-02-02''),
                 (''visits'', JNum (Fin 2))]), 3)"
  by (simp add: buildRecord_def genValue_email genValue_date_dash genValue_number obj_set_def
      array_index_def is_digit_def demo_faker_def toLowerCase_def lower_char_def String_int_def
      String_nat_small String_nat_step padStart_def)

end
